theory Spec2Isabelle
  imports Main "HOL-Library.Word"
begin

unbundle bit_operations_syntax

section \<open>Basic types\<close>

type_synonym byte = "8 word"
type_synonym uint32 = "32 word"
type_synonym uint64 = "64 word"

text \<open>
  A non-nil Go \<open>error\<close> is represented by the errno that \<open>fuse.ToStatus\<close> maps it to;
  \<open>fuse.Status\<close> is either \<open>OK\<close> or such an errno. A Go result pair
  \<open>(value, status)\<close> whose value is nil unless the status is \<open>OK\<close> is the sum
  \<open>errno + value\<close>.
\<close>

datatype errno = EPERM | ENOENT | EIO | EACCES | ENOTDIR | ENODATA | EINVAL | ENOSYS
  | ENAMETOOLONG | EBADMSG | ELOOP

datatype status = OK | Errno errno

fun ToStatus :: "errno option \<Rightarrow> status" where
  "ToStatus None = OK"
| "ToStatus (Some e) = Errno e"

fun result_status :: "errno + 'a \<Rightarrow> status" where
  "result_status (Inl e) = Errno e"
| "result_status (Inr _) = OK"

subsection \<open>Constants of syscall, configfile and nametransform\<close>

definition S_IFMT :: uint32 where "S_IFMT = 0xF000"
definition S_IFSOCK :: uint32 where "S_IFSOCK = 0xC000"
definition S_IFLNK :: uint32 where "S_IFLNK = 0xA000"
definition S_IFREG :: uint32 where "S_IFREG = 0x8000"
definition S_IFBLK :: uint32 where "S_IFBLK = 0x6000"
definition S_IFDIR :: uint32 where "S_IFDIR = 0x4000"
definition S_IFCHR :: uint32 where "S_IFCHR = 0x2000"
definition S_IFIFO :: uint32 where "S_IFIFO = 0x1000"
definition S_IXUSR :: uint32 where "S_IXUSR = 0x40"
definition NAME_MAX :: nat where "NAME_MAX = 255"

text \<open>Octal 0400 is 256 and octal 0600 is 384.\<close>

definition DirIVMode :: uint32 where "DirIVMode = S_IFREG OR 256"

definition DirIVFilename :: string where "DirIVFilename = ''gocryptfs.diriv''"
definition DirIVLen :: uint64 where "DirIVLen = 16"
definition LongNameSuffix :: string where "LongNameSuffix = ''.name''"
definition ConfDefaultName :: string where "ConfDefaultName = ''gocryptfs.conf''"
definition ConfReverseName :: string where "ConfReverseName = ''.gocryptfs.reverse.conf''"

subsection \<open>\<open>fuse.Attr\<close>, \<open>syscall.Stat_t\<close> and \<open>fuse.DirEntry\<close>\<close>

record Attr =
  Ino :: uint64
  Size :: uint64
  Blocks :: uint64
  Atime :: uint64
  Mtime :: uint64
  Ctime :: uint64
  Atimensec :: uint32
  Mtimensec :: uint32
  Ctimensec :: uint32
  Mode :: uint32
  Nlink :: uint32
  Uid :: uint32
  Gid :: uint32
  Rdev :: uint32
  Blksize :: uint32

record Stat_t =
  st_Dev :: uint64
  st_Ino :: uint64
  st_Nlink :: uint64
  st_Mode :: uint32
  st_Uid :: uint32
  st_Gid :: uint32
  st_Rdev :: uint64
  st_Size :: uint64
  st_Blksize :: uint64
  st_Blocks :: uint64
  st_Atim_Sec :: uint64
  st_Atim_Nsec :: uint64
  st_Mtim_Sec :: uint64
  st_Mtim_Nsec :: uint64
  st_Ctim_Sec :: uint64
  st_Ctim_Nsec :: uint64

record DirEntry =
  de_Mode :: uint32
  de_Name :: string

definition IsDir :: "Attr \<Rightarrow> bool" where
  "IsDir a \<longleftrightarrow> Mode a AND S_IFMT = S_IFDIR"

definition IsRegular :: "Attr \<Rightarrow> bool" where
  "IsRegular a \<longleftrightarrow> Mode a AND S_IFMT = S_IFREG"

text \<open>
  \<open>fi.Mode().IsRegular()\<close> of package os: the file mode built from a stat result has a
  type bit for block and character devices, directories, pipes, symlinks and sockets, and
  a mode with no type bit is regular.
\<close>

definition os_IsRegular :: "Stat_t \<Rightarrow> bool" where
  "os_IsRegular st \<longleftrightarrow>
     st_Mode st AND S_IFMT \<notin> {S_IFBLK, S_IFCHR, S_IFDIR, S_IFIFO, S_IFLNK, S_IFSOCK}"

text \<open>\<open>Attr.FromStat\<close>: field by field, with Go's integer conversions.\<close>

definition FromStat :: "Stat_t \<Rightarrow> Attr" where
  "FromStat s =
     \<lparr> Ino = st_Ino s, Size = st_Size s, Blocks = st_Blocks s,
       Atime = st_Atim_Sec s, Mtime = st_Mtim_Sec s, Ctime = st_Ctim_Sec s,
       Atimensec = ucast (st_Atim_Nsec s), Mtimensec = ucast (st_Mtim_Nsec s),
       Ctimensec = ucast (st_Ctim_Nsec s),
       Mode = st_Mode s, Nlink = ucast (st_Nlink s), Uid = st_Uid s, Gid = st_Gid s,
       Rdev = ucast (st_Rdev s), Blksize = ucast (st_Blksize s) \<rparr>"

section \<open>Paths (package path/filepath on Unix)\<close>

definition is_sep :: "char \<Rightarrow> bool" where
  "is_sep c \<longleftrightarrow> c = CHR ''/''"

text \<open>\<open>filepath.Base\<close>: strip trailing slashes, keep what follows the last slash.\<close>

definition filepath_Base :: "string \<Rightarrow> string" where
  "filepath_Base path =
     (if path = [] then ''.''
      else let p = rev (dropWhile is_sep (rev path));
               b = rev (takeWhile (\<lambda>c. \<not> is_sep c) (rev p))
           in if b = [] then ''/'' else b)"

fun split_sep :: "string \<Rightarrow> string list" where
  "split_sep [] = [[]]"
| "split_sep (c # cs) =
     (if is_sep c then [] # split_sep cs
      else (case split_sep cs of [] \<Rightarrow> [[c]] | x # xs \<Rightarrow> (c # x) # xs))"

fun join_sep :: "string list \<Rightarrow> string" where
  "join_sep [] = []"
| "join_sep [x] = x"
| "join_sep (x # y # ys) = x @ ''/'' @ join_sep (y # ys)"

text \<open>
  The loop of \<open>filepath.Clean\<close>, element by element. \<open>out\<close> holds the elements
  written so far, last one first. An empty element and \<open>.\<close> are skipped; \<open>..\<close> removes
  the last element written unless that is itself \<open>..\<close> or nothing is written, in
  which case it is kept on an unrooted path and dropped on a rooted one.
\<close>

fun clean_elems :: "bool \<Rightarrow> string list \<Rightarrow> string list \<Rightarrow> string list" where
  "clean_elems rooted out [] = out"
| "clean_elems rooted out (e # es) =
     (if e = [] \<or> e = ''.'' then clean_elems rooted out es
      else if e = ''..'' then
        (case out of
           [] \<Rightarrow> clean_elems rooted (if rooted then [] else [''..'']) es
         | t # ts \<Rightarrow>
             if t = ''..'' then clean_elems rooted (''..'' # out) es
             else clean_elems rooted ts es)
      else clean_elems rooted (e # out) es)"

definition filepath_Clean :: "string \<Rightarrow> string" where
  "filepath_Clean path =
     (if path = [] then ''.''
      else let rooted = is_sep (hd path);
               res = (if rooted then ''/'' else []) @
                     join_sep (rev (clean_elems rooted [] (split_sep path)))
           in if res = [] then ''.'' else res)"

text \<open>\<open>filepath.Dir\<close>: everything up to the last slash, cleaned.\<close>

definition filepath_Dir :: "string \<Rightarrow> string" where
  "filepath_Dir path = filepath_Clean (rev (dropWhile (\<lambda>c. \<not> is_sep c) (rev path)))"

definition relDir :: "string \<Rightarrow> string" where
  "relDir path = (let dir = filepath_Dir path in if dir = ''.'' then [] else dir)"

text \<open>
  The paths the FUSE layer hands over are relative and clean: the root is the empty
  string, and any other path is a list of names joined by single slashes, a name being
  non-empty, without a slash, and neither \<open>.\<close> nor \<open>..\<close>.
\<close>

definition valid_name :: "string \<Rightarrow> bool" where
  "valid_name n \<longleftrightarrow> n \<noteq> [] \<and> n \<noteq> ''.'' \<and> n \<noteq> ''..'' \<and> list_all (\<lambda>c. \<not> is_sep c) n"

definition fuse_path :: "string list \<Rightarrow> string" where
  "fuse_path names = join_sep names"

definition child_path :: "string \<Rightarrow> string \<Rightarrow> string" where
  "child_path dir name = (if dir = [] then name else dir @ ''/'' @ name)"

definition isDirIV :: "string \<Rightarrow> bool" where
  "isDirIV relPath \<longleftrightarrow> filepath_Base relPath = DirIVFilename"

section \<open>The reverse filesystem (internal/fusefrontend\_reverse/rfs.go)\<close>

subsection \<open>Collaborators\<close>

text \<open>
  What rfs.go calls and does not define is a field of the environment: the path
  decryption and filter of the reverse filesystem, \<open>rfs.abs\<close> (which takes the result
  pair of \<open>decryptPath\<close> and passes an error through), the stat calls of package os,
  \<open>syscall.Access\<close>, the loopback filesystem of go-fuse, and the name transformation.
  (The size translation of package contentenc is defined below, from the specification.)
  The loopback \<open>OpenDir\<close> returns a slice that may be nil (\<open>None\<close>) beside its status.
\<close>

record env =
  decryptPath :: "string \<Rightarrow> errno + string"
  isFiltered :: "string \<Rightarrow> bool"
  abs_path :: "errno + string \<Rightarrow> errno + string"
  os_Stat :: "string \<Rightarrow> errno + Stat_t"
  os_Lstat :: "string \<Rightarrow> errno + Stat_t"
  syscall_Access :: "string \<Rightarrow> uint32 \<Rightarrow> errno option"
  loopbackfs_GetAttr :: "string \<Rightarrow> errno + Attr"
  loopbackfs_OpenDir :: "string \<Rightarrow> DirEntry list option \<times> status"
  deriveDirIV :: "string \<Rightarrow> byte list"
  EncryptName :: "string \<Rightarrow> byte list \<Rightarrow> string"
  HashLongName :: "string \<Rightarrow> string"

subsection \<open>Size translation\<close>

definition HEADER :: nat where "HEADER = 18"
definition PBS :: nat where "PBS = 4096"
definition IV_LEN :: nat where "IV_LEN = 16"
definition TAG_LEN :: nat where "TAG_LEN = 16"
definition CBS :: nat where "CBS = PBS + IV_LEN + TAG_LEN"

text \<open>
  Modelled from the spec: \<open>contentenc.PlainSizeToCipherSize\<close> is not among the sources.
  The spec's size translation: \<open>cipher_size(0) = 0\<close>; for \<open>p > 0\<close>, with
  \<open>n = ceil(p/PBS)\<close>, the size is \<open>HEADER + (n-1)*CBS + (p - (n-1)*PBS) + IV_LEN + TAG_LEN\<close>
  when the last block is partial and \<open>HEADER + n*CBS\<close> when \<open>p\<close> is a multiple of
  \<open>PBS\<close>. The method works on the 64-bit size of \<open>fuse.Attr\<close>.
\<close>

definition cipher_size :: "nat \<Rightarrow> nat" where
  "cipher_size p =
     (if p = 0 then 0
      else let n = (p + PBS - 1) div PBS in
           if p mod PBS = 0 then HEADER + n * CBS
           else HEADER + (n - 1) * CBS + (p - (n - 1) * PBS) + IV_LEN + TAG_LEN)"

definition PlainSizeToCipherSize :: "uint64 \<Rightarrow> uint64" where
  "PlainSizeToCipherSize plainSize = of_nat (cipher_size (unat plainSize))"

subsection \<open>State\<close>

text \<open>
  Modelled from the spec: the inode number generator (\<open>inoGenT\<close>, \<open>NewInoGen\<close>,
  \<open>next\<close>) is not among the sources, and the spec only asks for freshly generated
  numbers. It is a 64-bit counter that starts at 1; \<open>next\<close> adds one and returns the new
  value, so the first number handed out is 2.
\<close>

type_synonym inoGenT = uint64

definition NewInoGen :: inoGenT where
  "NewInoGen = 1"

definition inoGen_next :: "inoGenT \<Rightarrow> uint64 \<times> inoGenT" where
  "inoGen_next g = (g + 1, g + 1)"

type_synonym devIno = "uint64 \<times> uint64"

record reverseFS =
  inoGen :: inoGenT
  inoMap :: "devIno \<rightharpoonup> uint64"

definition NewFS :: reverseFS where
  "NewFS = \<lparr> inoGen = NewInoGen, inoMap = Map.empty \<rparr>"

text \<open>Reading a Go map at a key it does not hold gives the zero value.\<close>

definition map_index :: "(devIno \<rightharpoonup> uint64) \<Rightarrow> devIno \<Rightarrow> uint64" where
  "map_index m k = (case m k of None \<Rightarrow> 0 | Some v \<Rightarrow> v)"

subsection \<open>Operations\<close>

definition dirIVAttr :: "env \<Rightarrow> reverseFS \<Rightarrow> string \<Rightarrow> (errno + Attr) \<times> reverseFS" where
  "dirIVAttr E rfs relPath =
     (let cDir = relDir relPath in
      case decryptPath E cDir of
        Inl err \<Rightarrow> (Inl err, rfs)
      | Inr dir \<Rightarrow>
          (case loopbackfs_GetAttr E dir of
             Inl st \<Rightarrow> (Inl st, rfs)
           | Inr a \<Rightarrow>
               if \<not> IsDir a then (Inl ENOTDIR, rfs)
               else if Mode a AND S_IXUSR = 0 then (Inl EPERM, rfs)
               else
                 (let (n, g) = inoGen_next (inoGen rfs) in
                  (Inr (a\<lparr>Mode := DirIVMode, Size := DirIVLen, Nlink := 1, Ino := n\<rparr>),
                   rfs\<lparr>inoGen := g\<rparr>))))"

definition inoAwareStat :: "env \<Rightarrow> reverseFS \<Rightarrow> string \<Rightarrow> (errno + Attr) \<times> reverseFS" where
  "inoAwareStat E rfs relPlainPath =
     (case abs_path E (Inr relPlainPath) of
        Inl err \<Rightarrow> (Inl err, rfs)
      | Inr absPath \<Rightarrow>
          (case (if relPlainPath = [] then os_Stat E absPath else os_Lstat E absPath) of
             Inl err \<Rightarrow> (Inl err, rfs)
           | Inr st \<Rightarrow>
               if os_IsRegular st \<and> 1 < st_Nlink st then
                 (let di = (st_Dev st, st_Ino st);
                      stableIno = map_index (inoMap rfs) di;
                      rfs' = (if stableIno = 0
                              then (let (n, g) = inoGen_next (inoGen rfs)
                                    in rfs\<lparr>inoGen := g, inoMap := (inoMap rfs)(di \<mapsto> n)\<rparr>)
                              else rfs)
                  in (Inr (FromStat (st\<lparr>st_Ino := stableIno\<rparr>)), rfs'))
               else
                 (let (n, g) = inoGen_next (inoGen rfs)
                  in (Inr (FromStat (st\<lparr>st_Ino := n\<rparr>)), rfs\<lparr>inoGen := g\<rparr>))))"

definition GetAttr :: "env \<Rightarrow> reverseFS \<Rightarrow> string \<Rightarrow> (errno + Attr) \<times> reverseFS" where
  "GetAttr E rfs relPath =
     (if relPath = ConfDefaultName then inoAwareStat E rfs ConfReverseName
      else if isDirIV relPath then dirIVAttr E rfs relPath
      else if isFiltered E relPath then (Inl EPERM, rfs)
      else
        (case decryptPath E relPath of
           Inl err \<Rightarrow> (Inl err, rfs)
         | Inr cPath \<Rightarrow>
             (case inoAwareStat E rfs cPath of
                (Inl st, rfs') \<Rightarrow> (Inl st, rfs')
              | (Inr a, rfs') \<Rightarrow>
                  (Inr (if IsRegular a then a\<lparr>Size := PlainSizeToCipherSize (Size a)\<rparr> else a),
                   rfs'))))"

definition Access :: "env \<Rightarrow> string \<Rightarrow> uint32 \<Rightarrow> status" where
  "Access E relPath mode =
     (if isDirIV relPath then OK
      else if isFiltered E relPath then Errno EPERM
      else
        (case abs_path E (decryptPath E relPath) of
           Inl err \<Rightarrow> Errno err
         | Inr absPath \<Rightarrow> ToStatus (syscall_Access E absPath mode)))"

text \<open>
  The loop of \<open>OpenDir\<close> over the entries read from the plaintext directory: it renames
  each entry in place and collects the virtual long-name files, in order.
\<close>

fun encrypt_entries ::
  "env \<Rightarrow> string \<Rightarrow> byte list \<Rightarrow> DirEntry list \<Rightarrow> DirEntry list \<Rightarrow> DirEntry list \<times> DirEntry list"
where
  "encrypt_entries E cipherPath dirIV virtualFiles [] = ([], virtualFiles)"
| "encrypt_entries E cipherPath dirIV virtualFiles (e # es) =
     (if cipherPath = [] \<and> de_Name e = ConfReverseName then
        (let (es', vf) = encrypt_entries E cipherPath dirIV virtualFiles es
         in (e\<lparr>de_Name := ConfDefaultName\<rparr> # es', vf))
      else
        (let cName = EncryptName E (de_Name e) dirIV in
         if NAME_MAX < length cName then
           (let cName' = HashLongName E cName;
                dotNameFile = \<lparr> de_Mode = S_IFREG OR 384, de_Name = cName' @ LongNameSuffix \<rparr>;
                (es', vf) = encrypt_entries E cipherPath dirIV (virtualFiles @ [dotNameFile]) es
            in (e\<lparr>de_Name := cName'\<rparr> # es', vf))
         else
           (let (es', vf) = encrypt_entries E cipherPath dirIV virtualFiles es
            in (e\<lparr>de_Name := cName\<rparr> # es', vf))))"

definition OpenDir :: "env \<Rightarrow> string \<Rightarrow> DirEntry list option \<times> status" where
  "OpenDir E cipherPath =
     (case decryptPath E cipherPath of
        Inl err \<Rightarrow> (None, Errno err)
      | Inr relPath \<Rightarrow>
          (case loopbackfs_OpenDir E relPath of
             (None, st) \<Rightarrow> (None, st)
           | (Some entries, st) \<Rightarrow>
               (let dirIVEntry = \<lparr> de_Mode = S_IFREG OR 256, de_Name = DirIVFilename \<rparr>;
                    virtualFiles = [dirIVEntry];
                    dirIV = deriveDirIV E cipherPath;
                    (entries', virtualFiles') =
                       encrypt_entries E cipherPath dirIV virtualFiles entries
                in (Some (entries' @ virtualFiles'), OK))))"

text \<open>
  What the listing is meant to hold, entry by entry: the name an entry is shown under,
  whether its encrypted name overflows, and the virtual \<open>.name\<close> file that goes with
  an overflowing entry. The loop above is compared with these.
\<close>

definition is_conf_entry :: "string \<Rightarrow> DirEntry \<Rightarrow> bool" where
  "is_conf_entry cipherPath e \<longleftrightarrow> cipherPath = [] \<and> de_Name e = ConfReverseName"

definition encrypted_name :: "env \<Rightarrow> string \<Rightarrow> DirEntry \<Rightarrow> string" where
  "encrypted_name E cipherPath e = EncryptName E (de_Name e) (deriveDirIV E cipherPath)"

definition has_long_name :: "env \<Rightarrow> string \<Rightarrow> DirEntry \<Rightarrow> bool" where
  "has_long_name E cipherPath e \<longleftrightarrow>
     \<not> is_conf_entry cipherPath e \<and> NAME_MAX < length (encrypted_name E cipherPath e)"

definition view_entry :: "env \<Rightarrow> string \<Rightarrow> DirEntry \<Rightarrow> DirEntry" where
  "view_entry E cipherPath e =
     e\<lparr>de_Name :=
        (if is_conf_entry cipherPath e then ConfDefaultName
         else if has_long_name E cipherPath e
              then HashLongName E (encrypted_name E cipherPath e)
         else encrypted_name E cipherPath e)\<rparr>"

definition sidecar_entry :: "env \<Rightarrow> string \<Rightarrow> DirEntry \<Rightarrow> DirEntry" where
  "sidecar_entry E cipherPath e =
     \<lparr> de_Mode = S_IFREG OR 384,
       de_Name = HashLongName E (encrypted_name E cipherPath e) @ LongNameSuffix \<rparr>"

section \<open>Extended attributes (forward mode)\<close>

subsection \<open>base64url without padding (\<open>base64.RawURLEncoding\<close>)\<close>

text \<open>A byte string is a \<open>string\<close>: a \<open>char\<close> is a byte.\<close>

definition encodeURL :: string where
  "encodeURL = ''ABCDEFGHIJKLMNOPQRSTUVWXYZabcdefghijklmnopqrstuvwxyz0123456789-_''"

definition enc6 :: "nat \<Rightarrow> char" where
  "enc6 v = encodeURL ! (v mod 64)"

fun index_of :: "'a \<Rightarrow> 'a list \<Rightarrow> nat option" where
  "index_of x [] = None"
| "index_of x (y # ys) = (if x = y then Some 0 else map_option Suc (index_of x ys))"

definition dec6 :: "char \<Rightarrow> nat option" where
  "dec6 c = index_of c encodeURL"

fun b64_encode :: "string \<Rightarrow> string" where
  "b64_encode (a # b # c # rest) =
     (let v = of_char a * 65536 + of_char b * 256 + of_char c
      in enc6 (v div 262144) # enc6 (v div 4096) # enc6 (v div 64) # enc6 v # b64_encode rest)"
| "b64_encode [a, b] =
     (let v = of_char a * 65536 + of_char b * 256
      in [enc6 (v div 262144), enc6 (v div 4096), enc6 (v div 64)])"
| "b64_encode [a] =
     (let v = of_char a * 65536
      in [enc6 (v div 262144), enc6 (v div 4096)])"
| "b64_encode [] = []"

definition byte_of :: "nat \<Rightarrow> char" where
  "byte_of v = char_of (v mod 256)"

text \<open>
  Decoding the 6-bit values, four at a time; two or three left over give one or two
  bytes (trailing bits are not checked), a single one left over is corrupt input.
\<close>

fun b64_decode_vals :: "nat list \<Rightarrow> string option" where
  "b64_decode_vals (d0 # d1 # d2 # d3 # rest) =
     (let v = d0 * 262144 + d1 * 4096 + d2 * 64 + d3 in
      case b64_decode_vals rest of
        None \<Rightarrow> None
      | Some bs \<Rightarrow> Some (byte_of (v div 65536) # byte_of (v div 256) # byte_of v # bs))"
| "b64_decode_vals [d0, d1, d2] =
     (let v = d0 * 262144 + d1 * 4096 + d2 * 64
      in Some [byte_of (v div 65536), byte_of (v div 256)])"
| "b64_decode_vals [d0, d1] =
     (let v = d0 * 262144 + d1 * 4096 in Some [byte_of (v div 65536)])"
| "b64_decode_vals [d0] = None"
| "b64_decode_vals [] = Some []"

text \<open>Carriage returns and line feeds are skipped; any other byte outside the alphabet is corrupt input.\<close>

definition b64_decode :: "string \<Rightarrow> string option" where
  "b64_decode s =
     (case those (map dec6 (filter (\<lambda>c. c \<noteq> CHR 0x0A \<and> c \<noteq> CHR 0x0D) s)) of
        None \<Rightarrow> None
      | Some vals \<Rightarrow> b64_decode_vals vals)"

subsection \<open>The codec\<close>

text \<open>
  Modelled from the spec: the cryptographic core (package cryptocore) is not among the
  sources. Of the interface the spec gives it, the codec uses
  \<open>encrypt_block(plain, ad, nonce)\<close>, which yields the block \<open>nonce || ciphertext || tag\<close>,
  \<open>decrypt_block(cipher, ad)\<close>, which yields the plaintext or fails authentication
  (\<open>None\<close>), and \<open>encrypt_name(name, dir_iv)\<close>. The translation of a plaintext path to
  its backing path (spec 4.5) is a field as well.
\<close>

record cryptocore =
  encrypt_block :: "string \<Rightarrow> string \<Rightarrow> string \<Rightarrow> string"
  decrypt_block :: "string \<Rightarrow> string \<Rightarrow> string option"
  encrypt_name :: "string \<Rightarrow> string \<Rightarrow> string"
  cipher_path :: "string \<Rightarrow> string"

text \<open>
  Modelled from the spec: what the spec asks of the AEAD. A block made with a nonce of
  \<open>IV_LEN\<close> bytes decrypts to its plaintext under the same associated data, and it is
  \<open>nonce(16) || ciphertext || tag(16)\<close> with a ciphertext as long as the plaintext.
\<close>

definition aead_correct :: "cryptocore \<Rightarrow> bool" where
  "aead_correct C \<longleftrightarrow>
     (\<forall>plain ad nonce. length nonce = IV_LEN \<longrightarrow>
        decrypt_block C (encrypt_block C plain ad nonce) ad = Some plain \<and>
        length (encrypt_block C plain ad nonce) = IV_LEN + length plain + TAG_LEN)"

text \<open>
  The backing directory of a forward mount, as far as extended attributes go: each
  backing file that exists has a table from stored attribute names to stored values.
\<close>

type_synonym backing = "string \<rightharpoonup> (string \<rightharpoonup> string)"

definition user_prefix :: "string \<Rightarrow> bool" where
  "user_prefix n \<longleftrightarrow> take 5 n = ''user.''"

text \<open>
  Modelled from the spec: the xattr name mapping of package fusefrontend is not among the
  sources. The encrypted name is \<open>user.gocryptfs.\<close> followed by
  \<open>base64url_nopad(cipher_name(strip_user_prefix(n), all_zero_iv))\<close>.
\<close>

definition encrypt_xattr_name :: "cryptocore \<Rightarrow> string \<Rightarrow> string" where
  "encrypt_xattr_name C n =
     ''user.gocryptfs.'' @ b64_encode (encrypt_name C (drop 5 n) (replicate IV_LEN (CHR 0x00)))"

text \<open>
  Modelled from the spec: binary parsing of a stored value is attempted when it has at
  least \<open>nonce + tag\<close> bytes, and succeeds when the block authenticates under empty
  associated data.
\<close>

definition raw_parse :: "cryptocore \<Rightarrow> string \<Rightarrow> string option" where
  "raw_parse C stored =
     (if IV_LEN + TAG_LEN \<le> length stored then decrypt_block C stored [] else None)"

text \<open>
  Modelled from the spec: the decoder of stored xattr values is not among the sources.
  Raw parsing is attempted first; if the stored value is not a well-formed binary record,
  the bytes are base64url-decoded and parsing is retried; only if both fail is the value
  corrupt, which surfaces as an I/O error.
\<close>

definition decrypt_xattr_value :: "cryptocore \<Rightarrow> string \<Rightarrow> errno + string" where
  "decrypt_xattr_value C stored =
     (case raw_parse C stored of
        Some plain \<Rightarrow> Inr plain
      | None \<Rightarrow>
          (case b64_decode stored of
             None \<Rightarrow> Inl EIO
           | Some decoded \<Rightarrow>
               (case raw_parse C decoded of
                  Some plain \<Rightarrow> Inr plain
                | None \<Rightarrow> Inl EIO)))"

text \<open>
  Modelled from the spec: \<open>GetXAttr\<close> of package fusefrontend is not among the sources.
  The name must start with \<open>user.\<close>; the stored value is looked up at the encrypted name
  on the backing file and decoded. A missing attribute is the backing filesystem's
  not-found error.
\<close>

definition GetXAttr :: "cryptocore \<Rightarrow> backing \<Rightarrow> string \<Rightarrow> string \<Rightarrow> errno + string" where
  "GetXAttr C B path name =
     (if \<not> user_prefix name then Inl EPERM
      else
        (case B (cipher_path C path) of
           None \<Rightarrow> Inl ENOENT
         | Some attrs \<Rightarrow>
             (case attrs (encrypt_xattr_name C name) of
                None \<Rightarrow> Inl ENODATA
              | Some stored \<Rightarrow> decrypt_xattr_value C stored)))"

text \<open>
  Modelled from the spec: \<open>SetXAttr\<close> of package fusefrontend is not among the sources.
  The value is encrypted with a fresh nonce (the argument \<open>nonce\<close>, drawn by
  \<open>random_nonce\<close>) under empty associated data and stored raw at the encrypted name.
\<close>

definition SetXAttr ::
  "cryptocore \<Rightarrow> string \<Rightarrow> backing \<Rightarrow> string \<Rightarrow> string \<Rightarrow> string \<Rightarrow> errno + backing" where
  "SetXAttr C nonce B path name val =
     (if \<not> user_prefix name then Inl EPERM
      else
        (case B (cipher_path C path) of
           None \<Rightarrow> Inl ENOENT
         | Some attrs \<Rightarrow>
             Inr (B(cipher_path C path \<mapsto>
                    attrs(encrypt_xattr_name C name \<mapsto> encrypt_block C val [] nonce)))))"

text \<open>
  Modelled from the spec: \<open>RemoveXAttr\<close> of package fusefrontend is not among the sources.
  The attribute stored at the encrypted name is removed from the backing file.
\<close>

definition RemoveXAttr :: "cryptocore \<Rightarrow> backing \<Rightarrow> string \<Rightarrow> string \<Rightarrow> errno + backing" where
  "RemoveXAttr C B path name =
     (if \<not> user_prefix name then Inl EPERM
      else
        (case B (cipher_path C path) of
           None \<Rightarrow> Inl ENOENT
         | Some attrs \<Rightarrow>
             (case attrs (encrypt_xattr_name C name) of
                None \<Rightarrow> Inl ENODATA
              | Some _ \<Rightarrow>
                  Inr (B(cipher_path C path \<mapsto> attrs(encrypt_xattr_name C name := None))))))"

text \<open>Writing a raw value at a stored name on a backing file, as the tests do.\<close>

definition backing_set :: "backing \<Rightarrow> string \<Rightarrow> string \<Rightarrow> string \<Rightarrow> backing" where
  "backing_set B cpath cname val =
     (case B cpath of None \<Rightarrow> B | Some attrs \<Rightarrow> B(cpath \<mapsto> attrs(cname \<mapsto> val)))"

section \<open>A small instance\<close>

text \<open>
  A plaintext tree and stand-ins for the collaborators, to run the operations on:
  the root holds the reverse config file (100 bytes), two names \<open>hard1\<close> and \<open>hard2\<close>
  of one file of 4097 bytes (device 1, inode 100, two links), a file \<open>file\<close> of one
  link, a file with a name of 200 bytes, a directory \<open>sub\<close> (mode 0755), a directory
  \<open>locked\<close> (mode 0600) and a directory \<open>dropbox\<close> (mode 0300), which can be
  searched but not listed. Paths decrypt to themselves, except \<open>bad\<close>, which does
  not decrypt; the name encryption doubles a name.
\<close>

definition example_stat :: "uint32 \<Rightarrow> uint64 \<Rightarrow> uint64 \<Rightarrow> uint64 \<Rightarrow> Stat_t" where
  "example_stat mode ino nlink sz =
     \<lparr> st_Dev = 1, st_Ino = ino, st_Nlink = nlink, st_Mode = mode, st_Uid = 1000,
       st_Gid = 1000, st_Rdev = 0, st_Size = sz, st_Blksize = 4096, st_Blocks = 16,
       st_Atim_Sec = 1000, st_Atim_Nsec = 1, st_Mtim_Sec = 2000, st_Mtim_Nsec = 2,
       st_Ctim_Sec = 3000, st_Ctim_Nsec = 3 \<rparr>"

definition example_lstat :: "string \<Rightarrow> errno + Stat_t" where
  "example_lstat absPath =
     (if absPath = ''/plain/'' then Inr (example_stat (S_IFDIR OR 493) 2 3 4096)
      else if absPath = ''/plain/.gocryptfs.reverse.conf''
        then Inr (example_stat (S_IFREG OR 420) 50 1 100)
      else if absPath = ''/plain/hard1'' \<or> absPath = ''/plain/hard2''
        then Inr (example_stat (S_IFREG OR 420) 100 2 4097)
      else if absPath = ''/plain/file'' then Inr (example_stat (S_IFREG OR 420) 101 1 4097)
      else if absPath = ''/plain/sub'' then Inr (example_stat (S_IFDIR OR 493) 200 2 4096)
      else if absPath = ''/plain/locked'' then Inr (example_stat (S_IFDIR OR 384) 201 2 4096)
      else if absPath = ''/plain/dropbox'' then Inr (example_stat (S_IFDIR OR 192) 202 2 4096)
      else Inl ENOENT)"

definition example_entries :: "DirEntry list" where
  "example_entries =
     [\<lparr> de_Mode = S_IFREG, de_Name = ''.gocryptfs.reverse.conf'' \<rparr>,
      \<lparr> de_Mode = S_IFREG, de_Name = ''file'' \<rparr>,
      \<lparr> de_Mode = S_IFREG, de_Name = replicate 200 (CHR ''x'') \<rparr>,
      \<lparr> de_Mode = S_IFDIR, de_Name = ''sub'' \<rparr>]"

definition example_env :: env where
  "example_env =
     \<lparr> decryptPath = (\<lambda>p. if p = ''bad'' then Inl EINVAL else Inr p),
       isFiltered = (\<lambda>p. False),
       abs_path = (\<lambda>r. case r of Inl e \<Rightarrow> Inl e | Inr p \<Rightarrow> Inr (''/plain/'' @ p)),
       os_Stat = example_lstat,
       os_Lstat = example_lstat,
       syscall_Access = (\<lambda>p m. Some EACCES),
       loopbackfs_GetAttr =
         (\<lambda>p. case example_lstat (''/plain/'' @ p) of
                 Inl e \<Rightarrow> Inl e | Inr st \<Rightarrow> Inr (FromStat st)),
       loopbackfs_OpenDir =
         (\<lambda>p. if p = [] then (Some example_entries, OK)
              else if p = ''sub'' then (Some [], OK)
              else if p = ''dropbox'' then (None, Errno EACCES)
              else (None, Errno ENOENT)),
       deriveDirIV = (\<lambda>p. replicate 16 0),
       EncryptName = (\<lambda>n iv. n @ n),
       HashLongName = (\<lambda>c. ''gocryptfs.longname.'' @ take 4 c) \<rparr>"

text \<open>
  A stand-in for the cryptographic core: the ciphertext is the plaintext reversed and
  the tag repeats one byte, \<open>e\<close> or \<open>o\<close> by the parity of a checksum of nonce,
  associated data and plaintext.
\<close>

definition example_tag :: "string \<Rightarrow> string \<Rightarrow> string \<Rightarrow> string" where
  "example_tag nonce ad plain =
     replicate TAG_LEN
       (if even (sum_list (map of_char (nonce @ ad @ plain)) + length plain)
        then CHR ''e'' else CHR ''o'')"

definition example_encrypt_block :: "string \<Rightarrow> string \<Rightarrow> string \<Rightarrow> string" where
  "example_encrypt_block plain ad nonce = nonce @ rev plain @ example_tag nonce ad plain"

definition example_decrypt_block :: "string \<Rightarrow> string \<Rightarrow> string option" where
  "example_decrypt_block c ad =
     (let nonce = take IV_LEN c;
          body = drop IV_LEN c;
          plain = rev (take (length body - TAG_LEN) body);
          tag = drop (length body - TAG_LEN) body
      in if IV_LEN + TAG_LEN \<le> length c \<and> tag = example_tag nonce ad plain
         then Some plain else None)"

definition example_core :: cryptocore where
  "example_core =
     \<lparr> encrypt_block = example_encrypt_block,
       decrypt_block = example_decrypt_block,
       encrypt_name = (\<lambda>n iv. rev n),
       cipher_path = (\<lambda>p. ''/cipher/'' @ rev p) \<rparr>"

definition example_nonce :: string where
  "example_nonce = ''0123456789abcdef''"

definition example_backing :: backing where
  "example_backing = [''/cipher/f'' \<mapsto> Map.empty]"

section \<open>Properties of the path functions\<close>

lemma split_sep_not_Nil: "split_sep s \<noteq> []"
  by (induction s) (auto split: list.splits)

lemma split_sep_name_append:
  "list_all (\<lambda>c. \<not> is_sep c) n \<Longrightarrow>
   split_sep (n @ r) = (case split_sep r of [] \<Rightarrow> [n] | x # xs \<Rightarrow> (n @ x) # xs)"
  by (induction n) (auto split: list.splits simp: split_sep_not_Nil)

lemma split_sep_join_slash:
  "list_all valid_name ns \<Longrightarrow> ns \<noteq> [] \<Longrightarrow> split_sep (join_sep ns @ ''/'') = ns @ [[]]"
  by (induction ns rule: join_sep.induct)
     (auto simp: valid_name_def split_sep_name_append is_sep_def)

lemma clean_elems_valid:
  "list_all valid_name ns \<Longrightarrow> clean_elems r out (ns @ [[]]) = rev ns @ out"
  by (induction ns arbitrary: out) (auto simp: valid_name_def)

lemma join_sep_Nil_iff: "list_all valid_name ns \<Longrightarrow> join_sep ns = [] \<longleftrightarrow> ns = []"
  by (induction ns rule: join_sep.induct) (auto simp: valid_name_def)

lemma hd_join_sep: "list_all valid_name ns \<Longrightarrow> ns \<noteq> [] \<Longrightarrow> \<not> is_sep (hd (join_sep ns))"
  by (induction ns rule: join_sep.induct) (auto simp: valid_name_def neq_Nil_conv)

lemma Clean_join_slash:
  assumes "list_all valid_name ns" "ns \<noteq> []"
  shows "filepath_Clean (join_sep ns @ ''/'') = join_sep ns"
proof -
  have ne: "join_sep ns \<noteq> []"
    using assms by (simp add: join_sep_Nil_iff)
  have hd: "\<not> is_sep (hd (join_sep ns @ ''/''))"
    using hd_join_sep [OF assms] ne by simp
  show ?thesis
    using ne hd
    by (simp add: filepath_Clean_def Let_def split_sep_join_slash [OF assms]
        clean_elems_valid [OF assms(1)])
qed

lemma dropWhile_rev_name:
  "list_all (\<lambda>c. \<not> is_sep c) n \<Longrightarrow>
   dropWhile (\<lambda>c. \<not> is_sep c) (rev n @ CHR ''/'' # r) = CHR ''/'' # r"
  by (induction n arbitrary: r rule: rev_induct) (auto simp: is_sep_def)

text \<open>The directory of a child of a clean path is that path; the root is the empty string.\<close>

lemma relDir_child:
  assumes "list_all valid_name ns" "valid_name n"
  shows "relDir (child_path (fuse_path ns) n) = fuse_path ns"
proof (cases "ns = []")
  case True
  have "dropWhile (\<lambda>c. \<not> is_sep c) (rev n) = []"
    using assms(2) by (auto simp: valid_name_def list_all_iff)
  then show ?thesis
    using True
    by (simp add: relDir_def filepath_Dir_def child_path_def fuse_path_def filepath_Clean_def)
next
  case False
  have ne: "join_sep ns \<noteq> []"
    using assms False by (simp add: join_sep_Nil_iff)
  have nosep: "list_all (\<lambda>c. \<not> is_sep c) n"
    using assms(2) by (simp add: valid_name_def)
  have "filepath_Dir (join_sep ns @ ''/'' @ n) = filepath_Clean (join_sep ns @ ''/'')"
    by (simp add: filepath_Dir_def dropWhile_rev_name [OF nosep])
  also have "\<dots> = join_sep ns"
    by (rule Clean_join_slash [OF assms(1) False])
  finally have d: "filepath_Dir (join_sep ns @ ''/'' @ n) = join_sep ns" .
  have "join_sep ns \<noteq> ''.''"
    using assms(1) False
    by (cases ns rule: join_sep.cases) (auto simp: valid_name_def append_eq_Cons_conv)
  then show ?thesis
    using ne d by (simp add: relDir_def child_path_def fuse_path_def Let_def)
qed

text \<open>The last element of a child path is the child's name.\<close>

lemma Base_child:
  assumes "valid_name n"
  shows "filepath_Base (child_path d n) = n"
proof -
  have nosep: "list_all (\<lambda>c. \<not> is_sep c) n" and ne: "n \<noteq> []"
    using assms by (simp_all add: valid_name_def)
  have dw: "dropWhile is_sep (rev n @ r) = rev n @ r" for r
    using nosep ne by (cases n rule: rev_cases) auto
  have tw: "takeWhile (\<lambda>c. \<not> is_sep c) (rev n @ CHR ''/'' # r) = rev n" for r
    using nosep by (induction n arbitrary: r rule: rev_induct) (auto simp: is_sep_def)
  have tw1: "takeWhile (\<lambda>c. \<not> is_sep c) (rev n) = rev n"
    using nosep by (simp add: list_all_iff)
  show ?thesis
  proof (cases "d = []")
    case True
    have "filepath_Base n = n"
      unfolding filepath_Base_def Let_def using ne dw [of "[]"] by (simp add: tw1)
    then show ?thesis
      using True by (simp add: child_path_def)
  next
    case False
    then show ?thesis
      using ne dw [of "CHR ''/'' # rev d"] tw [of "rev d"]
      by (simp add: filepath_Base_def child_path_def Let_def)
  qed
qed

lemma valid_name_DirIVFilename: "valid_name DirIVFilename"
  by (simp add: valid_name_def DirIVFilename_def is_sep_def)

lemma isDirIV_child: "isDirIV (child_path d DirIVFilename)"
  by (simp add: isDirIV_def Base_child [OF valid_name_DirIVFilename])

section \<open>Access to the virtual directory IV file\<close>

text \<open>
  Claim C9. In reverse mode, for every path whose last element is \<open>gocryptfs.diriv\<close>
  and for every requested access mode, \<open>Access\<close> answers \<open>OK\<close>, whatever the
  collaborators would say: the backing filesystem is not consulted and the permissions of
  the parent directory are not checked.
\<close>

theorem Access_dirIV_OK:
  "filepath_Base relPath = DirIVFilename \<Longrightarrow> Access E relPath mode = OK"
  by (simp add: Access_def isDirIV_def)

text \<open>
  In the instance, where \<open>syscall.Access\<close> refuses everything, the directory IV file
  of \<open>sub\<close> is accessible all the same while \<open>sub/file\<close> is not.
\<close>

theorem Access_dirIV_OK_witness:
  "filepath_Base ''sub/gocryptfs.diriv'' = DirIVFilename \<and>
   Access example_env ''sub/gocryptfs.diriv'' 7 = OK \<and>
   Access example_env ''sub/file'' 7 = Errno EACCES"
proof -
  have b: "filepath_Base ''sub/gocryptfs.diriv'' = DirIVFilename"
    by (simp add: filepath_Base_def DirIVFilename_def is_sep_def)
  have f: "Access example_env ''sub/file'' 7 = Errno EACCES"
    by (simp add: Access_def isDirIV_def filepath_Base_def DirIVFilename_def is_sep_def
        example_env_def)
  show ?thesis
    using b Access_dirIV_OK [OF b, of example_env 7] f by simp
qed

section \<open>The virtual directory IV file\<close>

lemma isDirIV_not_conf: "isDirIV relPath \<Longrightarrow> relPath \<noteq> ConfDefaultName"
  by (auto simp: isDirIV_def filepath_Base_def ConfDefaultName_def DirIVFilename_def is_sep_def)

lemma GetAttr_dirIV: "isDirIV relPath \<Longrightarrow> GetAttr E rfs relPath = dirIVAttr E rfs relPath"
  by (simp add: GetAttr_def isDirIV_not_conf)

text \<open>
  Claim C10. In reverse mode, \<open>GetAttr\<close> on a \<open>gocryptfs.diriv\<close> path returns
  \<open>ENOTDIR\<close> when the decrypted parent path exists but is not a directory, and
  \<open>EPERM\<close> when the parent directory's mode lacks the owner-execute bit; it returns
  \<open>OK\<close> (with the synthesized attribute) exactly when the parent path decrypts, exists,
  is a directory and has owner-execute set. The state is unchanged on failure.
\<close>

theorem GetAttr_dirIV_status:
  assumes "isDirIV relPath"
  shows
    "(\<forall>dir a. decryptPath E (relDir relPath) = Inr dir \<and> loopbackfs_GetAttr E dir = Inr a \<and>
        \<not> IsDir a \<longrightarrow> GetAttr E rfs relPath = (Inl ENOTDIR, rfs)) \<and>
     (\<forall>dir a. decryptPath E (relDir relPath) = Inr dir \<and> loopbackfs_GetAttr E dir = Inr a \<and>
        IsDir a \<and> Mode a AND S_IXUSR = 0 \<longrightarrow> GetAttr E rfs relPath = (Inl EPERM, rfs)) \<and>
     (result_status (fst (GetAttr E rfs relPath)) = OK \<longleftrightarrow>
        (\<exists>dir a. decryptPath E (relDir relPath) = Inr dir \<and> loopbackfs_GetAttr E dir = Inr a \<and>
           IsDir a \<and> Mode a AND S_IXUSR \<noteq> 0))"
  unfolding GetAttr_dirIV [OF assms] dirIVAttr_def Let_def
  by (auto split: sum.splits prod.splits)

lemmas path_eval = filepath_Base_def filepath_Dir_def filepath_Clean_def relDir_def isDirIV_def
  DirIVFilename_def is_sep_def Let_def

lemmas mode_eval = IsDir_def IsRegular_def FromStat_def example_stat_def S_IFMT_def S_IFDIR_def
  S_IFREG_def S_IXUSR_def

lemma example_GetAttr_file: "loopbackfs_GetAttr example_env ''file'' = Inr (FromStat (example_stat (S_IFREG OR 420) 101 1 4097))"
  by (simp add: example_env_def example_lstat_def)

lemma example_GetAttr_locked: "loopbackfs_GetAttr example_env ''locked'' = Inr (FromStat (example_stat (S_IFDIR OR 384) 201 2 4096))"
  by (simp add: example_env_def example_lstat_def)

lemma example_GetAttr_sub: "loopbackfs_GetAttr example_env ''sub'' = Inr (FromStat (example_stat (S_IFDIR OR 493) 200 2 4096))"
  by (simp add: example_env_def example_lstat_def)

lemma example_decryptPath: "p \<noteq> ''bad'' \<Longrightarrow> decryptPath example_env p = Inr p"
  by (simp add: example_env_def)

text \<open>
  In the instance: below the regular file \<open>file\<close> the answer is \<open>ENOTDIR\<close>, below
  the directory \<open>locked\<close> (mode 0600) it is \<open>EPERM\<close>, below \<open>sub\<close> it is \<open>OK\<close>.
\<close>

theorem GetAttr_dirIV_status_witness:
  "isDirIV ''file/gocryptfs.diriv'' \<and>
   GetAttr example_env NewFS ''file/gocryptfs.diriv'' = (Inl ENOTDIR, NewFS) \<and>
   isDirIV ''locked/gocryptfs.diriv'' \<and>
   GetAttr example_env NewFS ''locked/gocryptfs.diriv'' = (Inl EPERM, NewFS) \<and>
   isDirIV ''sub/gocryptfs.diriv'' \<and>
   result_status (fst (GetAttr example_env NewFS ''sub/gocryptfs.diriv'')) = OK"
proof -
  have d1: "isDirIV ''file/gocryptfs.diriv''" and r1: "relDir ''file/gocryptfs.diriv'' = ''file''"
    by (simp_all add: path_eval)
  have d2: "isDirIV ''locked/gocryptfs.diriv''" and r2: "relDir ''locked/gocryptfs.diriv'' = ''locked''"
    by (simp_all add: path_eval)
  have d3: "isDirIV ''sub/gocryptfs.diriv''" and r3: "relDir ''sub/gocryptfs.diriv'' = ''sub''"
    by (simp_all add: path_eval)
  have n1: "\<not> IsDir (FromStat (example_stat (S_IFREG OR 420) 101 1 4097))"
    by (simp add: mode_eval)
  have n2: "IsDir (FromStat (example_stat (S_IFDIR OR 384) 201 2 4096))"
       "Mode (FromStat (example_stat (S_IFDIR OR 384) 201 2 4096)) AND S_IXUSR = 0"
    by (simp_all add: mode_eval)
  have n3: "IsDir (FromStat (example_stat (S_IFDIR OR 493) 200 2 4096))"
       "Mode (FromStat (example_stat (S_IFDIR OR 493) 200 2 4096)) AND S_IXUSR \<noteq> 0"
    by (simp_all add: mode_eval)
  have c1: "GetAttr example_env NewFS ''file/gocryptfs.diriv'' = (Inl ENOTDIR, NewFS)"
    using GetAttr_dirIV_status [OF d1, of example_env NewFS] n1
    by (simp add: r1 example_decryptPath example_GetAttr_file)
  have c2: "GetAttr example_env NewFS ''locked/gocryptfs.diriv'' = (Inl EPERM, NewFS)"
    using GetAttr_dirIV_status [OF d2, of example_env NewFS] n2
    by (simp add: r2 example_decryptPath example_GetAttr_locked)
  have c3: "result_status (fst (GetAttr example_env NewFS ''sub/gocryptfs.diriv'')) = OK"
    using GetAttr_dirIV_status [OF d3, of example_env NewFS] n3
    by (simp add: r3 example_decryptPath example_GetAttr_sub)
  show ?thesis using d1 d2 d3 c1 c2 c3 by simp
qed

section \<open>Directory listings\<close>

text \<open>
  The loop of \<open>OpenDir\<close> renames every entry as \<open>view_entry\<close> says and appends one
  virtual \<open>.name\<close> file for each entry with an overflowing name, in order.
\<close>

lemma encrypt_entries_root:
  "encrypt_entries E [] (deriveDirIV E []) vf es =
     (map (view_entry E []) es, vf @ map (sidecar_entry E []) (filter (has_long_name E []) es))"
  by (induction es arbitrary: vf)
     (simp_all add: Let_def view_entry_def sidecar_entry_def has_long_name_def
        is_conf_entry_def encrypted_name_def)

lemma encrypt_entries_below:
  "cp \<noteq> [] \<Longrightarrow>
   encrypt_entries E cp (deriveDirIV E cp) vf es =
     (map (view_entry E cp) es, vf @ map (sidecar_entry E cp) (filter (has_long_name E cp) es))"
  by (induction es arbitrary: vf)
     (simp_all add: Let_def view_entry_def sidecar_entry_def has_long_name_def
        is_conf_entry_def encrypted_name_def)

lemma encrypt_entries_eq:
  "encrypt_entries E cp (deriveDirIV E cp) vf es =
     (map (view_entry E cp) es, vf @ map (sidecar_entry E cp) (filter (has_long_name E cp) es))"
  by (cases "cp = []") (simp_all add: encrypt_entries_root encrypt_entries_below)

lemma OpenDir_eq:
  assumes "decryptPath E cipherPath = Inr relPath"
    and "loopbackfs_OpenDir E relPath = (Some entries, st)"
  shows "OpenDir E cipherPath =
           (Some (map (view_entry E cipherPath) entries @
                  \<lparr> de_Mode = S_IFREG OR 256, de_Name = DirIVFilename \<rparr> #
                  map (sidecar_entry E cipherPath) (filter (has_long_name E cipherPath) entries)),
            OK)"
  using assms by (simp add: OpenDir_def Let_def encrypt_entries_eq)

lemma OpenDir_has_dirIV:
  assumes "OpenDir E cipherPath = (Some es, st)"
  shows "st = OK \<and> DirIVFilename \<in> set (map de_Name es)"
proof (cases "decryptPath E cipherPath")
  case (Inl err)
  then show ?thesis
    using assms by (simp add: OpenDir_def)
next
  case (Inr relPath)
  show ?thesis
  proof (cases "loopbackfs_OpenDir E relPath")
    case (Pair entries st')
    show ?thesis
    proof (cases entries)
      case None
      then show ?thesis
        using assms Inr Pair by (simp add: OpenDir_def)
    next
      case (Some ents)
      have "OpenDir E cipherPath =
              (Some (map (view_entry E cipherPath) ents @
                     \<lparr> de_Mode = S_IFREG OR 256, de_Name = DirIVFilename \<rparr> #
                     map (sidecar_entry E cipherPath) (filter (has_long_name E cipherPath) ents)),
               OK)"
        using Pair Some by (intro OpenDir_eq [OF Inr]) simp
      then show ?thesis
        using assms by auto
    qed
  qed
qed

text \<open>
  Claim C6. In reverse mode, for every directory \<open>D\<close> (a clean relative path) whose
  backing directory exists, is a directory and has owner-execute set:
  \<open>GetAttr\<close> on \<open>D\<close>'s child \<open>gocryptfs.diriv\<close> returns a regular-file attribute with
  mode 0400, size 16, link count 1, the timestamps of the backing directory, and the
  next number of the inode generator (which advances); and every listing \<open>OpenDir\<close>
  returns for \<open>D\<close> has an entry named \<open>gocryptfs.diriv\<close>. \<open>OpenDir\<close> returns a
  listing, with status \<open>OK\<close>, whenever reading the backing directory gives one.
\<close>

theorem dirIV_attr_and_listing:
  assumes "list_all valid_name ns"
    and "decryptPath E (fuse_path ns) = Inr dir"
    and "loopbackfs_GetAttr E dir = Inr a"
    and "IsDir a"
    and "Mode a AND S_IXUSR \<noteq> 0"
  shows "(\<exists>a'. GetAttr E rfs (child_path (fuse_path ns) DirIVFilename) =
             (Inr a', rfs\<lparr>inoGen := snd (inoGen_next (inoGen rfs))\<rparr>) \<and>
           IsRegular a' \<and> Mode a' AND 4095 = 256 \<and> Size a' = 16 \<and> Nlink a' = 1 \<and>
           Atime a' = Atime a \<and> Mtime a' = Mtime a \<and> Ctime a' = Ctime a \<and>
           Atimensec a' = Atimensec a \<and> Mtimensec a' = Mtimensec a \<and>
           Ctimensec a' = Ctimensec a \<and>
           Ino a' = fst (inoGen_next (inoGen rfs))) \<and>
         (\<forall>es st. OpenDir E (fuse_path ns) = (Some es, st) \<longrightarrow>
            st = OK \<and> DirIVFilename \<in> set (map de_Name es)) \<and>
         (\<forall>entries st. loopbackfs_OpenDir E dir = (Some entries, st) \<longrightarrow>
            (\<exists>es. OpenDir E (fuse_path ns) = (Some es, OK) \<and>
                  DirIVFilename \<in> set (map de_Name es)))"
proof -
  have rd: "relDir (child_path (fuse_path ns) DirIVFilename) = fuse_path ns"
    by (rule relDir_child [OF assms(1) valid_name_DirIVFilename])
  have "GetAttr E rfs (child_path (fuse_path ns) DirIVFilename) =
          (Inr (a\<lparr>Mode := DirIVMode, Size := DirIVLen, Nlink := 1, Ino := fst (inoGen_next (inoGen rfs))\<rparr>),
           rfs\<lparr>inoGen := snd (inoGen_next (inoGen rfs))\<rparr>)"
    using assms(2-5)
    by (simp add: GetAttr_dirIV [OF isDirIV_child] dirIVAttr_def rd Let_def split: prod.splits)
  moreover have "IsRegular (a\<lparr>Mode := DirIVMode, Size := DirIVLen, Nlink := 1, Ino := i\<rparr>)"
     "Mode (a\<lparr>Mode := DirIVMode, Size := DirIVLen, Nlink := 1, Ino := i\<rparr>) AND 4095 = 256" for i
    by (simp_all add: IsRegular_def DirIVMode_def S_IFREG_def S_IFMT_def)
  ultimately have A: "\<exists>a'. GetAttr E rfs (child_path (fuse_path ns) DirIVFilename) =
             (Inr a', rfs\<lparr>inoGen := snd (inoGen_next (inoGen rfs))\<rparr>) \<and>
           IsRegular a' \<and> Mode a' AND 4095 = 256 \<and> Size a' = 16 \<and> Nlink a' = 1 \<and>
           Atime a' = Atime a \<and> Mtime a' = Mtime a \<and> Ctime a' = Ctime a \<and>
           Atimensec a' = Atimensec a \<and> Mtimensec a' = Mtimensec a \<and>
           Ctimensec a' = Ctimensec a \<and>
           Ino a' = fst (inoGen_next (inoGen rfs))"
    by (simp add: DirIVLen_def)
  have B: "\<forall>es st. OpenDir E (fuse_path ns) = (Some es, st) \<longrightarrow>
             st = OK \<and> DirIVFilename \<in> set (map de_Name es)"
    using OpenDir_has_dirIV by blast
  have C: "\<exists>es. OpenDir E (fuse_path ns) = (Some es, OK) \<and> DirIVFilename \<in> set (map de_Name es)"
    if "loopbackfs_OpenDir E dir = (Some entries, st)" for entries st
    using OpenDir_eq [OF assms(2) that] by auto
  show ?thesis using A B C by blast
qed

text \<open>
  In the instance, on a new filesystem: for the directory \<open>sub\<close>, whose listing is
  empty, and for the directory \<open>dropbox\<close> (mode 0300), whose directory IV file is
  served although the directory cannot be listed.
\<close>

theorem dirIV_attr_and_listing_witness:
  "list_all valid_name [''sub''] \<and>
   decryptPath example_env (fuse_path [''sub'']) = Inr ''sub'' \<and>
   loopbackfs_GetAttr example_env ''sub'' = Inr (FromStat (example_stat (S_IFDIR OR 493) 200 2 4096)) \<and>
   loopbackfs_OpenDir example_env ''sub'' = (Some [], OK) \<and>
   child_path (fuse_path [''sub'']) DirIVFilename = ''sub/gocryptfs.diriv'' \<and>
   GetAttr example_env NewFS ''sub/gocryptfs.diriv'' =
     (Inr \<lparr> Ino = 2, Size = 16, Blocks = 16, Atime = 1000, Mtime = 2000, Ctime = 3000,
            Atimensec = 1, Mtimensec = 2, Ctimensec = 3, Mode = 0x8100, Nlink = 1,
            Uid = 1000, Gid = 1000, Rdev = 0, Blksize = 4096 \<rparr>,
      \<lparr> inoGen = 2, inoMap = Map.empty \<rparr>) \<and>
   OpenDir example_env ''sub'' =
     (Some [\<lparr> de_Mode = 0x8100, de_Name = ''gocryptfs.diriv'' \<rparr>], OK) \<and>
   list_all valid_name [''dropbox''] \<and>
   decryptPath example_env (fuse_path [''dropbox'']) = Inr ''dropbox'' \<and>
   loopbackfs_GetAttr example_env ''dropbox'' =
     Inr (FromStat (example_stat (S_IFDIR OR 192) 202 2 4096)) \<and>
   child_path (fuse_path [''dropbox'']) DirIVFilename = ''dropbox/gocryptfs.diriv'' \<and>
   GetAttr example_env NewFS ''dropbox/gocryptfs.diriv'' =
     (Inr \<lparr> Ino = 2, Size = 16, Blocks = 16, Atime = 1000, Mtime = 2000, Ctime = 3000,
            Atimensec = 1, Mtimensec = 2, Ctimensec = 3, Mode = 0x8100, Nlink = 1,
            Uid = 1000, Gid = 1000, Rdev = 0, Blksize = 4096 \<rparr>,
      \<lparr> inoGen = 2, inoMap = Map.empty \<rparr>) \<and>
   OpenDir example_env ''dropbox'' = (None, Errno EACCES)"
proof -
  have v: "list_all valid_name [''sub'']"
    by (simp add: valid_name_def is_sep_def)
  have p: "fuse_path [''sub''] = ''sub''"
    by (simp add: fuse_path_def)
  have d: "decryptPath example_env (fuse_path [''sub'']) = Inr ''sub''"
    by (simp add: p example_env_def)
  have g: "loopbackfs_GetAttr example_env ''sub'' =
             Inr (FromStat (example_stat (S_IFDIR OR 493) 200 2 4096))"
    by (simp add: example_env_def example_lstat_def)
  have m: "IsDir (FromStat (example_stat (S_IFDIR OR 493) 200 2 4096))"
       "Mode (FromStat (example_stat (S_IFDIR OR 493) 200 2 4096)) AND S_IXUSR \<noteq> 0"
    by (simp_all add: IsDir_def FromStat_def example_stat_def S_IFMT_def S_IFDIR_def S_IXUSR_def)
  have l: "loopbackfs_OpenDir example_env ''sub'' = (Some [], OK)"
    by (simp add: example_env_def)
  have c: "child_path (fuse_path [''sub'']) DirIVFilename = ''sub/gocryptfs.diriv''"
    by (simp add: p child_path_def DirIVFilename_def)
  note t = dirIV_attr_and_listing [OF v d g m, of NewFS, unfolded c p]
  have a: "GetAttr example_env NewFS ''sub/gocryptfs.diriv'' =
     (Inr \<lparr> Ino = 2, Size = 16, Blocks = 16, Atime = 1000, Mtime = 2000, Ctime = 3000,
            Atimensec = 1, Mtimensec = 2, Ctimensec = 3, Mode = 0x8100, Nlink = 1,
            Uid = 1000, Gid = 1000, Rdev = 0, Blksize = 4096 \<rparr>,
      \<lparr> inoGen = 2, inoMap = Map.empty \<rparr>)"
    using t d g m
    by (simp add: GetAttr_def dirIVAttr_def isDirIV_def filepath_Base_def filepath_Dir_def
        filepath_Clean_def relDir_def DirIVFilename_def ConfDefaultName_def is_sep_def
        Let_def p NewFS_def NewInoGen_def inoGen_next_def FromStat_def example_stat_def
        DirIVMode_def DirIVLen_def S_IFREG_def)
  have o: "OpenDir example_env ''sub'' =
     (Some [\<lparr> de_Mode = 0x8100, de_Name = ''gocryptfs.diriv'' \<rparr>], OK)"
    using d l by (simp add: OpenDir_def p Let_def DirIVFilename_def S_IFREG_def)
  have v': "list_all valid_name [''dropbox'']"
    by (simp add: valid_name_def is_sep_def)
  have p': "fuse_path [''dropbox''] = ''dropbox''"
    by (simp add: fuse_path_def)
  have d': "decryptPath example_env (fuse_path [''dropbox'']) = Inr ''dropbox''"
    by (simp add: p' example_env_def)
  have g': "loopbackfs_GetAttr example_env ''dropbox'' =
             Inr (FromStat (example_stat (S_IFDIR OR 192) 202 2 4096))"
    by (simp add: example_env_def example_lstat_def)
  have m': "IsDir (FromStat (example_stat (S_IFDIR OR 192) 202 2 4096))"
       "Mode (FromStat (example_stat (S_IFDIR OR 192) 202 2 4096)) AND S_IXUSR \<noteq> 0"
    by (simp_all add: IsDir_def FromStat_def example_stat_def S_IFMT_def S_IFDIR_def S_IXUSR_def)
  have c': "child_path (fuse_path [''dropbox'']) DirIVFilename = ''dropbox/gocryptfs.diriv''"
    by (simp add: p' child_path_def DirIVFilename_def)
  note t' = dirIV_attr_and_listing [OF v' d' g' m', of NewFS, unfolded c' p']
  have a': "GetAttr example_env NewFS ''dropbox/gocryptfs.diriv'' =
     (Inr \<lparr> Ino = 2, Size = 16, Blocks = 16, Atime = 1000, Mtime = 2000, Ctime = 3000,
            Atimensec = 1, Mtimensec = 2, Ctimensec = 3, Mode = 0x8100, Nlink = 1,
            Uid = 1000, Gid = 1000, Rdev = 0, Blksize = 4096 \<rparr>,
      \<lparr> inoGen = 2, inoMap = Map.empty \<rparr>)"
    using t' d' g' m'
    by (simp add: GetAttr_def dirIVAttr_def isDirIV_def filepath_Base_def filepath_Dir_def
        filepath_Clean_def relDir_def DirIVFilename_def ConfDefaultName_def is_sep_def
        Let_def p' NewFS_def NewInoGen_def inoGen_next_def FromStat_def example_stat_def
        DirIVMode_def DirIVLen_def S_IFREG_def)
  have o': "OpenDir example_env ''dropbox'' = (None, Errno EACCES)"
    using d' by (simp add: OpenDir_def p' example_env_def)
  show ?thesis
    using v d g l c a o v' d' g' c' a' o' by simp
qed

text \<open>
  Claim C7. In reverse mode, the listing \<open>OpenDir\<close> returns is the entries of the
  plaintext directory, each under its view name, followed by \<open>gocryptfs.diriv\<close> and by
  the virtual \<open>.name\<close> files. An entry whose encrypted name (made from its plaintext
  name and the derived IV of the directory) is longer than \<open>NAME_MAX\<close> is shown under the
  hashed long name, and the hashed name with the suffix \<open>.name\<close> is among the virtual
  files of the same listing; the virtual \<open>.name\<close> files are those of the overflowing
  entries and no others, so an entry whose encrypted name fits has none.
\<close>

theorem OpenDir_long_names:
  assumes "decryptPath E cipherPath = Inr relPath"
    and "loopbackfs_OpenDir E relPath = (Some entries, st)"
  shows "OpenDir E cipherPath =
           (Some (map (view_entry E cipherPath) entries @
                  \<lparr> de_Mode = S_IFREG OR 256, de_Name = DirIVFilename \<rparr> #
                  map (sidecar_entry E cipherPath) (filter (has_long_name E cipherPath) entries)),
            OK)"
  using assms by (simp add: OpenDir_def Let_def encrypt_entries_eq)

text \<open>
  In the instance, the root directory: the name of 200 bytes encrypts to 400 bytes and
  is the only one with a \<open>.name\<close> file.
\<close>

theorem OpenDir_long_names_witness:
  "decryptPath example_env [] = Inr [] \<and>
   loopbackfs_OpenDir example_env [] = (Some example_entries, OK) \<and>
   OpenDir example_env [] =
     (Some [\<lparr> de_Mode = 0x8000, de_Name = ''gocryptfs.conf'' \<rparr>,
            \<lparr> de_Mode = 0x8000, de_Name = ''filefile'' \<rparr>,
            \<lparr> de_Mode = 0x8000, de_Name = ''gocryptfs.longname.xxxx'' \<rparr>,
            \<lparr> de_Mode = 0x4000, de_Name = ''subsub'' \<rparr>,
            \<lparr> de_Mode = 0x8100, de_Name = ''gocryptfs.diriv'' \<rparr>,
            \<lparr> de_Mode = 0x8180, de_Name = ''gocryptfs.longname.xxxx.name'' \<rparr>], OK)"
proof -
  have d: "decryptPath example_env [] = Inr []"
    by (simp add: example_env_def)
  have l: "loopbackfs_OpenDir example_env [] = (Some example_entries, OK)"
    by (simp add: example_env_def)
  have e: "map (view_entry example_env []) example_entries @
           \<lparr> de_Mode = S_IFREG OR 256, de_Name = DirIVFilename \<rparr> #
           map (sidecar_entry example_env []) (filter (has_long_name example_env []) example_entries) =
       [\<lparr> de_Mode = 0x8000, de_Name = ''gocryptfs.conf'' \<rparr>,
            \<lparr> de_Mode = 0x8000, de_Name = ''filefile'' \<rparr>,
            \<lparr> de_Mode = 0x8000, de_Name = ''gocryptfs.longname.xxxx'' \<rparr>,
            \<lparr> de_Mode = 0x4000, de_Name = ''subsub'' \<rparr>,
            \<lparr> de_Mode = 0x8100, de_Name = ''gocryptfs.diriv'' \<rparr>,
            \<lparr> de_Mode = 0x8180, de_Name = ''gocryptfs.longname.xxxx.name'' \<rparr>]"
    by code_simp
  show ?thesis
    using d l OpenDir_long_names [OF d l] by (simp only: e simp_thms)
qed

section \<open>Inode numbers of hard links\<close>

text \<open>
  Claim C1. In reverse mode every stat of a regular backing file with more than one link
  is meant to return the same synthesized inode number for the same \<open>(dev, ino)\<close>
  pair. The code does not: on the first stat of a pair that is not yet in \<open>inoMap\<close>
  it stores the generator's next number in the table but hands out the value it read
  before, the zero of a missing key; every later stat hands out the stored number. So the
  first two stats of a hard-linked file differ (unless the generator wrapped around to 0).
\<close>

theorem inoAwareStat_hardlink_first_stat:
  assumes "abs_path E (Inr p) = Inr absPath"
    and "p \<noteq> []"
    and "os_Lstat E absPath = Inr st"
    and "os_IsRegular st"
    and "1 < st_Nlink st"
    and "inoMap rfs (st_Dev st, st_Ino st) = None"
    and "inoGen rfs + 1 \<noteq> 0"
  shows "\<exists>a1 rfs1 a2 rfs2.
           inoAwareStat E rfs p = (Inr a1, rfs1) \<and>
           inoAwareStat E rfs1 p = (Inr a2, rfs2) \<and>
           Ino a1 = 0 \<and> Ino a2 = inoGen rfs + 1 \<and> Ino a1 \<noteq> Ino a2"
proof -
  let ?di = "(st_Dev st, st_Ino st)"
  let ?rfs1 = "rfs\<lparr>inoGen := inoGen rfs + 1, inoMap := (inoMap rfs)(?di \<mapsto> inoGen rfs + 1)\<rparr>"
  have 1: "inoAwareStat E rfs p = (Inr (FromStat (st\<lparr>st_Ino := 0\<rparr>)), ?rfs1)"
    using assms(1-6) by (simp add: inoAwareStat_def Let_def map_index_def inoGen_next_def)
  have 2: "inoAwareStat E ?rfs1 p = (Inr (FromStat (st\<lparr>st_Ino := inoGen rfs + 1\<rparr>)), ?rfs1)"
    using assms(1-5,7) by (simp add: inoAwareStat_def Let_def map_index_def)
  show ?thesis
    using 1 2 assms(7) by (simp add: FromStat_def) 
qed

text \<open>
  In the instance, on a new filesystem: the first stat of \<open>hard1\<close> gives inode 0, the
  second gives 2, and so does a stat of the other name \<open>hard2\<close>.
\<close>

theorem inoAwareStat_hardlink_first_stat_witness:
  "inoAwareStat example_env NewFS ''hard1'' =
     (Inr (FromStat ((example_stat (S_IFREG OR 420) 100 2 4097)\<lparr>st_Ino := 0\<rparr>)),
      \<lparr> inoGen = 2, inoMap = [(1, 100) \<mapsto> 2] \<rparr>) \<and>
   inoAwareStat example_env \<lparr> inoGen = 2, inoMap = [(1, 100) \<mapsto> 2] \<rparr> ''hard1'' =
     (Inr (FromStat ((example_stat (S_IFREG OR 420) 100 2 4097)\<lparr>st_Ino := 2\<rparr>)),
      \<lparr> inoGen = 2, inoMap = [(1, 100) \<mapsto> 2] \<rparr>) \<and>
   inoAwareStat example_env \<lparr> inoGen = 2, inoMap = [(1, 100) \<mapsto> 2] \<rparr> ''hard2'' =
     (Inr (FromStat ((example_stat (S_IFREG OR 420) 100 2 4097)\<lparr>st_Ino := 2\<rparr>)),
      \<lparr> inoGen = 2, inoMap = [(1, 100) \<mapsto> 2] \<rparr>)"
proof -
  let ?st = "example_stat (S_IFREG OR 420) 100 2 4097"
  have a: "abs_path example_env (Inr ''hard1'') = Inr ''/plain/hard1''"
    by (simp add: example_env_def)
  have n: "''hard1'' \<noteq> []" by simp
  have l: "os_Lstat example_env ''/plain/hard1'' = Inr ?st"
    by (simp add: example_env_def example_lstat_def)
  have l2: "os_Lstat example_env ''/plain/hard2'' = Inr ?st"
    by (simp add: example_env_def example_lstat_def)
  have a2: "abs_path example_env (Inr ''hard2'') = Inr ''/plain/hard2''"
    by (simp add: example_env_def)
  have r: "os_IsRegular ?st"
    by (simp add: os_IsRegular_def example_stat_def S_IFMT_def S_IFREG_def S_IFBLK_def
        S_IFCHR_def S_IFDIR_def S_IFIFO_def S_IFLNK_def S_IFSOCK_def)
  have k: "1 < st_Nlink ?st" "st_Dev ?st = 1" "st_Ino ?st = 100"
    by (simp_all add: example_stat_def)
  have m: "inoMap NewFS (st_Dev ?st, st_Ino ?st) = None"
    by (simp add: NewFS_def)
  have g: "inoGen NewFS + 1 \<noteq> 0" "inoGen NewFS + 1 = 2"
    by (simp_all add: NewFS_def NewInoGen_def)
  note t = inoAwareStat_hardlink_first_stat [OF a n l r k(1) m g(1)]
  have 1: "inoAwareStat example_env NewFS ''hard1'' =
     (Inr (FromStat (?st\<lparr>st_Ino := 0\<rparr>)), \<lparr> inoGen = 2, inoMap = [(1, 100) \<mapsto> 2] \<rparr>)"
    using t a l r k
    by (simp add: inoAwareStat_def Let_def map_index_def inoGen_next_def NewFS_def NewInoGen_def)
  have 2: "inoAwareStat example_env \<lparr> inoGen = 2, inoMap = [(1, 100) \<mapsto> 2] \<rparr> ''hard1'' =
     (Inr (FromStat (?st\<lparr>st_Ino := 2\<rparr>)), \<lparr> inoGen = 2, inoMap = [(1, 100) \<mapsto> 2] \<rparr>)"
    using a l r k by (simp add: inoAwareStat_def Let_def map_index_def)
  have 3: "inoAwareStat example_env \<lparr> inoGen = 2, inoMap = [(1, 100) \<mapsto> 2] \<rparr> ''hard2'' =
     (Inr (FromStat (?st\<lparr>st_Ino := 2\<rparr>)), \<lparr> inoGen = 2, inoMap = [(1, 100) \<mapsto> 2] \<rparr>)"
    using a2 l2 r k by (simp add: inoAwareStat_def Let_def map_index_def)
  show ?thesis using 1 2 3 by simp
qed

section \<open>Size reporting\<close>

lemma ceil_div_4096:
  "((p::nat) + 4095) div 4096 = p div 4096 + (if p mod 4096 = 0 then 0 else 1)"
proof -
  define k r where "k = p div 4096" and "r = p mod 4096"
  have p: "p = r + k * 4096" and r: "r < 4096"
    by (simp_all add: k_def r_def)
  have "(r + 4095) div 4096 = (if r = 0 then 0 else 1)"
    using r by (auto intro!: div_nat_eqI)
  then have "(p + 4095) div 4096 = k + (if r = 0 then 0 else 1)"
    unfolding p by (simp add: add.commute add.left_commute)
  then show ?thesis by (simp add: k_def r_def)
qed

text \<open>
  The spec's size translation is the header plus one ciphertext block for each full
  plaintext block plus remainder and overhead of a final partial block.
\<close>

lemma cipher_size_eq:
  "cipher_size p =
     (if p = 0 then 0
      else 18 + 4128 * (p div 4096) + (if p mod 4096 = 0 then 0 else p mod 4096 + 32))"
proof (cases "p = 0")
  case True
  then show ?thesis by (simp add: cipher_size_def)
next
  case False
  define n where "n = (p + PBS - 1) div PBS"
  have n: "n = p div 4096 + (if p mod 4096 = 0 then 0 else 1)"
    using ceil_div_4096 [of p] by (simp add: n_def PBS_def)
  have c: "cipher_size p =
             (if p mod 4096 = 0 then 18 + n * 4128 else 18 + (n - 1) * 4128 + (p - (n - 1) * 4096) + 16 + 16)"
    unfolding cipher_size_def Let_def n_def [symmetric]
    using False by (simp add: PBS_def CBS_def HEADER_def IV_LEN_def TAG_LEN_def)
  show ?thesis
  proof (cases "p mod 4096 = 0")
    case True
    then show ?thesis using False c n by simp
  next
    case m: False
    have "p - p div 4096 * 4096 = p mod 4096"
      by (simp add: minus_div_mult_eq_mod)
    then show ?thesis using False m c n by simp
  qed
qed

lemma cipher_size_bound:
  assumes "p < 2 ^ 63"
  shows "cipher_size p < 2 ^ 64"
proof -
  define q where "q = p div 4096"
  have q: "4096 * q \<le> p" by (simp add: q_def)
  have r: "p mod 4096 + 4096 * q = p" by (simp add: q_def)
  have p: "p < 9223372036854775808" using assms by simp
  have "cipher_size p \<le> 18 + 4128 * q + (p mod 4096 + 32)"
    by (simp add: cipher_size_eq q_def)
  also have "\<dots> = p + 32 * q + 50"
    using r by linarith
  also have "\<dots> < 18446744073709551616"
    using p q by linarith
  finally show ?thesis by simp
qed

lemma inoAwareStat_attr:
  assumes "abs_path E (Inr cPath) = Inr absPath"
    and "(if cPath = [] then os_Stat E absPath else os_Lstat E absPath) = Inr st"
  shows "\<exists>i rfs'. inoAwareStat E rfs cPath = (Inr (FromStat (st\<lparr>st_Ino := i\<rparr>)), rfs')"
  using assms by (auto simp: inoAwareStat_def Let_def split: prod.splits)

text \<open>
  Claim C3, as amended. In reverse mode, for every regular backing file of plaintext size
  \<open>p\<close> that is reached through a view path other than \<open>gocryptfs.conf\<close> (not a
  \<open>gocryptfs.diriv\<close> path, not filtered, and decrypting to the file's path),
  \<open>GetAttr\<close> reports the size \<open>cipher_size(p)\<close> as a 64-bit number: 0 for
  \<open>p = 0\<close>, and for \<open>p > 0\<close> the header size 18 plus 4128 for each full block of
  4096 bytes plus (remainder + 32) for a final partial block. For a size below \<open>2^63\<close>
  (any size a stat call returns) nothing is lost in the 64 bits.
\<close>

theorem GetAttr_cipher_size:
  assumes "relPath \<noteq> ConfDefaultName"
    and "\<not> isDirIV relPath"
    and "\<not> isFiltered E relPath"
    and "decryptPath E relPath = Inr cPath"
    and "abs_path E (Inr cPath) = Inr absPath"
    and "(if cPath = [] then os_Stat E absPath else os_Lstat E absPath) = Inr st"
    and "st_Mode st AND S_IFMT = S_IFREG"
  shows "\<exists>a rfs'. GetAttr E rfs relPath = (Inr a, rfs') \<and> IsRegular a \<and>
           Size a = of_nat (cipher_size (unat (st_Size st))) \<and>
           cipher_size (unat (st_Size st)) =
             (if unat (st_Size st) = 0 then 0
              else 18 + 4128 * (unat (st_Size st) div 4096) +
                   (if unat (st_Size st) mod 4096 = 0 then 0
                    else unat (st_Size st) mod 4096 + 32)) \<and>
           (unat (st_Size st) < 2 ^ 63 \<longrightarrow> unat (Size a) = cipher_size (unat (st_Size st)))"
proof -
  obtain i rfs' where s: "inoAwareStat E rfs cPath = (Inr (FromStat (st\<lparr>st_Ino := i\<rparr>)), rfs')"
    using inoAwareStat_attr [OF assms(5,6)] by blast
  let ?a = "FromStat (st\<lparr>st_Ino := i\<rparr>)"
  have reg: "IsRegular ?a" and sz: "Size ?a = st_Size st"
    using assms(7) by (simp_all add: IsRegular_def FromStat_def)
  let ?a' = "?a\<lparr>Size := PlainSizeToCipherSize (Size ?a)\<rparr>"
  have g: "GetAttr E rfs relPath = (Inr ?a', rfs')"
    using assms(1-4) s reg by (simp add: GetAttr_def)
  have reg': "IsRegular ?a'"
    using reg by (simp add: IsRegular_def)
  have sz': "Size ?a' = of_nat (cipher_size (unat (st_Size st)))"
    by (simp add: sz PlainSizeToCipherSize_def)
  have b: "unat (Size ?a') = cipher_size (unat (st_Size st))" if "unat (st_Size st) < 2 ^ 63"
  proof -
    have "cipher_size (unat (st_Size st)) < 2 ^ 64"
      by (rule cipher_size_bound [OF that])
    then show ?thesis
      unfolding sz' by (simp add: unat_of_nat)
  qed
  show ?thesis
    using g reg' sz' b cipher_size_eq [of "unat (st_Size st)"] by blast
qed

text \<open>In the instance: \<open>file\<close> has 4097 bytes and is reported with 18 + 4128 + 33 = 4179.\<close>

theorem GetAttr_cipher_size_witness:
  "''file'' \<noteq> ConfDefaultName \<and> \<not> isDirIV ''file'' \<and> \<not> isFiltered example_env ''file'' \<and>
   os_Lstat example_env ''/plain/file'' = Inr (example_stat (S_IFREG OR 420) 101 1 4097) \<and>
   GetAttr example_env NewFS ''file'' =
     (Inr \<lparr> Ino = 2, Size = 4179, Blocks = 16, Atime = 1000, Mtime = 2000, Ctime = 3000,
            Atimensec = 1, Mtimensec = 2, Ctimensec = 3, Mode = 0x81A4, Nlink = 1,
            Uid = 1000, Gid = 1000, Rdev = 0, Blksize = 4096 \<rparr>,
      \<lparr> inoGen = 2, inoMap = Map.empty \<rparr>) \<and>
   cipher_size 4097 = 4179"
proof -
  let ?st = "example_stat (S_IFREG OR 420) 101 1 4097"
  have h1: "''file'' \<noteq> ConfDefaultName"
    by (simp add: ConfDefaultName_def)
  have h2: "\<not> isDirIV ''file''"
    by (simp add: isDirIV_def filepath_Base_def DirIVFilename_def is_sep_def)
  have h3: "\<not> isFiltered example_env ''file''"
    by (simp add: example_env_def)
  have h4: "decryptPath example_env ''file'' = Inr ''file''"
    by (simp add: example_env_def)
  have h5: "abs_path example_env (Inr ''file'') = Inr ''/plain/file''"
    by (simp add: example_env_def)
  have l: "os_Lstat example_env ''/plain/file'' = Inr ?st"
    by (simp add: example_env_def example_lstat_def)
  have h6: "(if ''file'' = [] then os_Stat example_env ''/plain/file''
             else os_Lstat example_env ''/plain/file'') = Inr ?st"
    using l by simp
  have h7: "st_Mode ?st AND S_IFMT = S_IFREG"
    by (simp add: example_stat_def S_IFMT_def S_IFREG_def)
  have sz: "unat (st_Size ?st) = 4097"
    by (simp add: example_stat_def)
  note t = GetAttr_cipher_size [OF h1 h2 h3 h4 h5 h6 h7, of NewFS, unfolded sz]
  have c: "cipher_size 4097 = 4179"
    using t by auto
  have r: "os_IsRegular ?st" "\<not> 1 < st_Nlink ?st"
    by (simp_all add: os_IsRegular_def example_stat_def S_IFMT_def S_IFREG_def S_IFBLK_def
        S_IFCHR_def S_IFDIR_def S_IFIFO_def S_IFLNK_def S_IFSOCK_def)
  have s: "inoAwareStat example_env NewFS ''file'' =
             (Inr (FromStat (?st\<lparr>st_Ino := 2\<rparr>)), \<lparr> inoGen = 2, inoMap = Map.empty \<rparr>)"
    using h5 l r by (simp add: inoAwareStat_def inoGen_next_def NewFS_def NewInoGen_def)
  have g: "GetAttr example_env NewFS ''file'' =
     (Inr \<lparr> Ino = 2, Size = 4179, Blocks = 16, Atime = 1000, Mtime = 2000, Ctime = 3000,
            Atimensec = 1, Mtimensec = 2, Ctimensec = 3, Mode = 0x81A4, Nlink = 1,
            Uid = 1000, Gid = 1000, Rdev = 0, Blksize = 4096 \<rparr>,
      \<lparr> inoGen = 2, inoMap = Map.empty \<rparr>)"
    using h1 h2 h3 h4 s
    by (simp add: GetAttr_def IsRegular_def FromStat_def example_stat_def S_IFMT_def S_IFREG_def
        PlainSizeToCipherSize_def c)
  show ?thesis using h1 h2 h3 l g c by simp
qed

text \<open>
  Claim C3 as stated fails for the config file: \<open>.gocryptfs.reverse.conf\<close> is a regular
  backing file of 100 bytes, and \<open>GetAttr\<close> on its view name \<open>gocryptfs.conf\<close>
  reports 100, not \<open>cipher_size(100) = 150\<close>.
\<close>

theorem GetAttr_conf_size_counterexample:
  "os_Lstat example_env ''/plain/.gocryptfs.reverse.conf'' =
     Inr (example_stat (S_IFREG OR 420) 50 1 100) \<and>
   st_Mode (example_stat (S_IFREG OR 420) 50 1 100) AND S_IFMT = S_IFREG \<and>
   st_Size (example_stat (S_IFREG OR 420) 50 1 100) = 100 \<and>
   GetAttr example_env NewFS ''gocryptfs.conf'' =
     (Inr \<lparr> Ino = 2, Size = 100, Blocks = 16, Atime = 1000, Mtime = 2000, Ctime = 3000,
            Atimensec = 1, Mtimensec = 2, Ctimensec = 3, Mode = 0x81A4, Nlink = 1,
            Uid = 1000, Gid = 1000, Rdev = 0, Blksize = 4096 \<rparr>,
      \<lparr> inoGen = 2, inoMap = Map.empty \<rparr>) \<and>
   cipher_size 100 = 150 \<and>
   PlainSizeToCipherSize 100 = 150"
proof -
  let ?st = "example_stat (S_IFREG OR 420) 50 1 100"
  have l: "os_Lstat example_env ''/plain/.gocryptfs.reverse.conf'' = Inr ?st"
    by (simp add: example_env_def example_lstat_def)
  have a: "abs_path example_env (Inr ConfReverseName) = Inr ''/plain/.gocryptfs.reverse.conf''"
    by (simp add: example_env_def ConfReverseName_def)
  have m: "st_Mode ?st AND S_IFMT = S_IFREG" "st_Size ?st = 100"
    by (simp_all add: example_stat_def S_IFMT_def S_IFREG_def)
  have r: "os_IsRegular ?st" "\<not> 1 < st_Nlink ?st"
    by (simp_all add: os_IsRegular_def example_stat_def S_IFMT_def S_IFREG_def S_IFBLK_def
        S_IFCHR_def S_IFDIR_def S_IFIFO_def S_IFLNK_def S_IFSOCK_def)
  have n: "ConfReverseName \<noteq> []"
    by (simp add: ConfReverseName_def)
  have s: "inoAwareStat example_env NewFS ConfReverseName =
             (Inr (FromStat (?st\<lparr>st_Ino := 2\<rparr>)), \<lparr> inoGen = 2, inoMap = Map.empty \<rparr>)"
    using a l r n by (simp add: inoAwareStat_def inoGen_next_def NewFS_def NewInoGen_def)
  have g: "GetAttr example_env NewFS ''gocryptfs.conf'' =
     (Inr \<lparr> Ino = 2, Size = 100, Blocks = 16, Atime = 1000, Mtime = 2000, Ctime = 3000,
            Atimensec = 1, Mtimensec = 2, Ctimensec = 3, Mode = 0x81A4, Nlink = 1,
            Uid = 1000, Gid = 1000, Rdev = 0, Blksize = 4096 \<rparr>,
      \<lparr> inoGen = 2, inoMap = Map.empty \<rparr>)"
    using s by (simp add: GetAttr_def ConfDefaultName_def FromStat_def example_stat_def S_IFREG_def)
  have c: "cipher_size 100 = 150"
    by (simp add: cipher_size_eq)
  have c': "PlainSizeToCipherSize 100 = 150"
    by (simp add: PlainSizeToCipherSize_def c)
  show ?thesis using l m g c c' by simp
qed

section \<open>base64url: decoding undoes encoding\<close>

lemma index_of_nth: "distinct xs \<Longrightarrow> i < length xs \<Longrightarrow> index_of (xs ! i) xs = Some i"
proof (induction xs arbitrary: i)
  case Nil
  then show ?case by simp
next
  case (Cons x xs)
  show ?case
  proof (cases i)
    case 0
    then show ?thesis by simp
  next
    case (Suc j)
    then have "xs ! j \<noteq> x" using Cons.prems by auto
    then show ?thesis using Suc Cons by auto
  qed
qed

lemma distinct_encodeURL: "distinct encodeURL"
  by (simp add: encodeURL_def)

lemma length_encodeURL: "length encodeURL = 64"
  by (simp add: encodeURL_def)

lemma dec6_enc6: "dec6 (enc6 v) = Some (v mod 64)"
  by (simp add: dec6_def enc6_def index_of_nth distinct_encodeURL length_encodeURL)

lemma enc6_not_newline: "enc6 v \<noteq> CHR 0x0A \<and> enc6 v \<noteq> CHR 0x0D"
proof -
  have "enc6 v \<in> set encodeURL"
    by (simp add: enc6_def length_encodeURL)
  then show ?thesis by (auto simp: encodeURL_def)
qed

lemma sextets:
  assumes "v < 16777216"
  shows "(v div 262144 mod 64) * 262144 + (v div 4096 mod 64) * 4096 + (v div 64 mod 64) * 64 + v mod 64 = (v::nat)"
proof -
  have 1: "v = 64 * (v div 64) + v mod 64" by simp
  have 2: "v div 64 = 64 * (v div 4096) + v div 64 mod 64"
    using div_mult_mod_eq [of "v div 64" 64] by (simp add: div_mult2_eq [symmetric])
  have 3: "v div 4096 = 64 * (v div 262144) + v div 4096 mod 64"
    using div_mult_mod_eq [of "v div 4096" 64] by (simp add: div_mult2_eq [symmetric])
  have 4: "v div 262144 mod 64 = v div 262144"
    using assms by (simp add: less_mult_imp_div_less)
  show ?thesis using 1 2 3 4 by linarith
qed


lemma those_dec6_Cons:
  "those (map dec6 (filter (\<lambda>c. c \<noteq> CHR 0x0A \<and> c \<noteq> CHR 0x0D) (enc6 v # cs))) =
     map_option (Cons (v mod 64))
       (those (map dec6 (filter (\<lambda>c. c \<noteq> CHR 0x0A \<and> c \<noteq> CHR 0x0D) cs)))"
  using enc6_not_newline [of v] by (simp add: dec6_enc6)

lemma bytes3:
  fixes a b c :: nat
  assumes "a < 256" "b < 256" "c < 256"
  shows "a * 65536 + b * 256 + c < 16777216"
    and "(a * 65536 + b * 256 + c) div 65536 mod 256 = a"
    and "(a * 65536 + b * 256 + c) div 256 mod 256 = b"
    and "(a * 65536 + b * 256 + c) mod 256 = c"
proof -
  show "a * 65536 + b * 256 + c < 16777216"
    using assms by simp
  have "(a * 65536 + b * 256 + c) div 65536 = a"
    using assms by simp
  then show "(a * 65536 + b * 256 + c) div 65536 mod 256 = a"
    using assms by simp
  have "(a * 65536 + b * 256 + c) div 256 = a * 256 + b"
    using assms by simp
  then show "(a * 65536 + b * 256 + c) div 256 mod 256 = b"
    using assms by simp
  have "a * 65536 + b * 256 + c = c + 256 * (a * 256 + b)"
    by simp
  then have "(a * 65536 + b * 256 + c) mod 256 = c mod 256"
    by (simp only: mod_mult_self2)
  then show "(a * 65536 + b * 256 + c) mod 256 = c"
    using assms by simp
qed

lemma decode_block3:
  fixes a b c :: char
  defines "v \<equiv> (of_char a :: nat) * 65536 + of_char b * 256 + of_char c"
  shows "b64_decode_vals (v div 262144 mod 64 # v div 4096 mod 64 # v div 64 mod 64 # v mod 64 # vals) =
           (case b64_decode_vals vals of None \<Rightarrow> None | Some bs \<Rightarrow> Some (a # b # c # bs))"
proof -
  have lt: "(of_char a :: nat) < 256" "(of_char b :: nat) < 256" "(of_char c :: nat) < 256"
    by simp_all
  note f = bytes3 [OF lt, folded v_def]
  have s: "(v div 262144 mod 64) * 262144 + (v div 4096 mod 64) * 4096 + (v div 64 mod 64) * 64 + v mod 64 = v"
    by (rule sextets [OF f(1)])
  have "byte_of (v div 65536) = a" "byte_of (v div 256) = b" "byte_of v = c"
    unfolding byte_of_def by (simp_all only: f char_of_char)
  then show ?thesis
    by (simp add: s Let_def split: option.splits)
qed


lemma decode_tail2:
  fixes a b :: char
  defines "v \<equiv> (of_char a :: nat) * 65536 + of_char b * 256"
  shows "b64_decode_vals [v div 262144 mod 64, v div 4096 mod 64, v div 64 mod 64] = Some [a, b]"
proof -
  have lt: "(of_char a :: nat) < 256" "(of_char b :: nat) < 256" "(0 :: nat) < 256"
    by simp_all
  have e: "of_char a * 65536 + of_char b * 256 + 0 = v"
    by (simp add: v_def)
  note f = bytes3 [OF lt, unfolded e]
  have "v = 64 * (of_char a * 1024 + of_char b * 4)"
    by (simp add: v_def)
  then have z: "v mod 64 = 0"
    by (simp only: mod_mult_self1_is_0)
  have s: "(v div 262144 mod 64) * 262144 + (v div 4096 mod 64) * 4096 + (v div 64 mod 64) * 64 = v"
    using sextets [OF f(1)] z by linarith
  have "byte_of (v div 65536) = a" "byte_of (v div 256) = b"
    unfolding byte_of_def by (simp_all only: f char_of_char)
  then show ?thesis
    by (simp only: b64_decode_vals.simps Let_def s)
qed

lemma decode_tail1:
  fixes a :: char
  defines "v \<equiv> (of_char a :: nat) * 65536"
  shows "b64_decode_vals [v div 262144 mod 64, v div 4096 mod 64] = Some [a]"
proof -
  have lt: "(of_char a :: nat) < 256" "(0 :: nat) < 256"
    by simp_all
  have e: "of_char a * 65536 + 0 * 256 + 0 = v"
    by (simp add: v_def)
  note f = bytes3 [OF lt(1) lt(2) lt(2), unfolded e]
  have "v = 64 * (of_char a * 1024)"
    by (simp add: v_def)
  then have z: "v mod 64 = 0"
    by (simp only: mod_mult_self1_is_0)
  have "v div 64 = 64 * (of_char a * 16)"
    by (simp add: v_def)
  then have z': "v div 64 mod 64 = 0"
    by (simp only: mod_mult_self1_is_0)
  have s: "(v div 262144 mod 64) * 262144 + (v div 4096 mod 64) * 4096 = v"
    using sextets [OF f(1)] z z' by linarith
  have "byte_of (v div 65536) = a"
    unfolding byte_of_def by (simp only: f char_of_char)
  then show ?thesis
    by (simp only: b64_decode_vals.simps Let_def s)
qed

text \<open>Decoding undoes encoding.\<close>

lemma b64_decode_encode: "b64_decode (b64_encode x) = Some x"
proof (induction x rule: b64_encode.induct)
  case (1 a b c rest)
  obtain vals where v: "those (map dec6 (filter (\<lambda>c. c \<noteq> CHR 0x0A \<and> c \<noteq> CHR 0x0D) (b64_encode rest))) = Some vals"
    and d: "b64_decode_vals vals = Some rest"
    using 1 by (auto simp: b64_decode_def split: option.splits)
  show ?case
    unfolding b64_decode_def b64_encode.simps Let_def those_dec6_Cons v
    by (simp only: option.map option.case decode_block3 d)
next
  case (2 a b)
  show ?case
    unfolding b64_decode_def b64_encode.simps Let_def those_dec6_Cons
    by (simp only: filter.simps list.map those.simps option.map option.case decode_tail2)
next
  case (3 a)
  show ?case
    unfolding b64_decode_def b64_encode.simps Let_def those_dec6_Cons
    by (simp only: filter.simps list.map those.simps option.map option.case decode_tail1)
next
  case 4
  show ?case by (simp add: b64_decode_def)
qed


section \<open>Extended attributes: set, get, remove\<close>

lemma raw_parse_block:
  assumes "aead_correct C" and "length nonce = IV_LEN"
  shows "raw_parse C (encrypt_block C val [] nonce) = Some val"
proof -
  have "decrypt_block C (encrypt_block C val [] nonce) [] = Some val"
    and "length (encrypt_block C val [] nonce) = IV_LEN + length val + TAG_LEN"
    using assms by (simp_all add: aead_correct_def)
  then show ?thesis
    by (simp add: raw_parse_def)
qed

lemma decrypt_xattr_value_block:
  assumes "aead_correct C" and "length nonce = IV_LEN"
  shows "decrypt_xattr_value C (encrypt_block C val [] nonce) = Inr val"
  by (simp add: decrypt_xattr_value_def raw_parse_block [OF assms])

lemma Get_after_Set:
  assumes "aead_correct C" and "length nonce = IV_LEN" and "user_prefix name"
    and "B (cipher_path C path) = Some attrs"
  shows "\<exists>B'. SetXAttr C nonce B path name val = Inr B' \<and>
              B' (cipher_path C path) \<noteq> None \<and>
              GetXAttr C B' path name = Inr val"
  using assms(3,4)
  by (simp add: SetXAttr_def GetXAttr_def decrypt_xattr_value_block [OF assms(1,2)])

lemma Get_after_Remove:
  assumes "user_prefix name" and "B (cipher_path C path) = Some attrs"
    and "attrs (encrypt_xattr_name C name) = Some stored"
  shows "\<exists>B'. RemoveXAttr C B path name = Inr B' \<and> GetXAttr C B' path name = Inl ENODATA"
  using assms by (simp add: RemoveXAttr_def GetXAttr_def)

text \<open>
  Claim C2. For every file that exists, every xattr name with the \<open>user.\<close> prefix and
  all byte strings \<open>v\<close> and \<open>v'\<close>, the empty one included: \<open>SetXAttr(name, v)\<close>
  succeeds and \<open>GetXAttr(name)\<close> then returns exactly \<open>v\<close>; a subsequent
  \<open>RemoveXAttr(name)\<close> succeeds and \<open>GetXAttr(name)\<close> then fails with the not-found
  error; and a second \<open>SetXAttr(name, v')\<close> makes \<open>GetXAttr\<close> return \<open>v'\<close>, the
  latest value. The nonces are any strings of \<open>IV_LEN\<close> bytes, and the core is any
  that meets the spec's AEAD contract.
\<close>

theorem xattr_set_get_remove:
  assumes "aead_correct C"
    and "length n1 = IV_LEN"
    and "length n2 = IV_LEN"
    and "user_prefix name"
    and "B (cipher_path C path) = Some attrs"
  shows "\<exists>B1 B2 B3.
           SetXAttr C n1 B path name v = Inr B1 \<and>
           GetXAttr C B1 path name = Inr v \<and>
           RemoveXAttr C B1 path name = Inr B2 \<and>
           GetXAttr C B2 path name = Inl ENODATA \<and>
           SetXAttr C n2 B1 path name v' = Inr B3 \<and>
           GetXAttr C B3 path name = Inr v'"
proof -
  let ?cp = "cipher_path C path" and ?cn = "encrypt_xattr_name C name"
  let ?attrs1 = "attrs(?cn \<mapsto> encrypt_block C v [] n1)"
  let ?B1 = "B(?cp \<mapsto> ?attrs1)"
  have s1: "SetXAttr C n1 B path name v = Inr ?B1"
    using assms(4,5) by (simp add: SetXAttr_def)
  have g1: "GetXAttr C ?B1 path name = Inr v"
    using assms(4) by (simp add: GetXAttr_def decrypt_xattr_value_block [OF assms(1,2)])
  have b1: "?B1 ?cp = Some ?attrs1" and a1: "?attrs1 ?cn = Some (encrypt_block C v [] n1)"
    by simp_all
  obtain B2 where r: "RemoveXAttr C ?B1 path name = Inr B2"
    and g2: "GetXAttr C B2 path name = Inl ENODATA"
    using Get_after_Remove [where C = C and B = ?B1 and attrs = ?attrs1, OF assms(4) b1 a1]
    by blast
  obtain B3 where s3: "SetXAttr C n2 ?B1 path name v' = Inr B3"
    and g3: "GetXAttr C B3 path name = Inr v'"
    using Get_after_Set [where B = ?B1 and attrs = ?attrs1, OF assms(1,3,4) b1] by blast
  show ?thesis
    using s1 g1 r g2 s3 g3 by blast
qed

lemma replicate_numeral: "replicate (numeral k) x = x # replicate (pred_numeral k) x"
  by (simp add: numeral_eq_Suc)

lemmas b64_eval = b64_decode_def dec6_def enc6_def encodeURL_def byte_of_def Let_def

lemmas core_eval = example_core_def example_encrypt_block_def example_decrypt_block_def
  example_tag_def example_nonce_def raw_parse_def IV_LEN_def TAG_LEN_def Let_def replicate_numeral

lemma example_core_correct: "aead_correct example_core"
  by (simp add: aead_correct_def example_core_def example_encrypt_block_def
      example_decrypt_block_def example_tag_def IV_LEN_def TAG_LEN_def Let_def)

lemma example_cipher_path: "cipher_path example_core ''f'' = ''/cipher/f''"
  by (simp add: example_core_def)

lemma example_backing_f: "example_backing (cipher_path example_core ''f'') = Some Map.empty"
  by (simp add: example_cipher_path example_backing_def)

text \<open>
  In the instance: the test's sequence on \<open>user.foo\<close>, with the value \<open>123456789\<close> and
  then the empty value.
\<close>

theorem xattr_set_get_remove_witness:
  "aead_correct example_core \<and>
   length example_nonce = IV_LEN \<and>
   user_prefix ''user.foo'' \<and>
   example_backing (cipher_path example_core ''f'') = Some Map.empty \<and>
   GetXAttr example_core example_backing ''f'' ''user.foo'' = Inl ENODATA \<and>
   (\<exists>B1 B2 B3.
      SetXAttr example_core example_nonce example_backing ''f'' ''user.foo'' ''123456789'' = Inr B1 \<and>
      GetXAttr example_core B1 ''f'' ''user.foo'' = Inr ''123456789'' \<and>
      RemoveXAttr example_core B1 ''f'' ''user.foo'' = Inr B2 \<and>
      GetXAttr example_core B2 ''f'' ''user.foo'' = Inl ENODATA \<and>
      SetXAttr example_core example_nonce B1 ''f'' ''user.foo'' [] = Inr B3 \<and>
      GetXAttr example_core B3 ''f'' ''user.foo'' = Inr [])"
proof -
  have n: "length example_nonce = IV_LEN"
    by (simp add: example_nonce_def IV_LEN_def)
  have u: "user_prefix ''user.foo''"
    by (simp add: user_prefix_def)
  have g: "GetXAttr example_core example_backing ''f'' ''user.foo'' = Inl ENODATA"
    using u by (simp add: GetXAttr_def example_backing_f)
  show ?thesis
    using example_core_correct n u example_backing_f g
      xattr_set_get_remove [where C = example_core and B = example_backing and path = "''f''"
        and attrs = Map.empty and v = "''123456789''" and v' = "[]",
        OF example_core_correct n n u example_backing_f]
    by simp
qed

section \<open>Extended attributes: the legacy base64 form\<close>

lemma backing_set_lookup:
  "B cpath = Some attrs \<Longrightarrow> backing_set B cpath cname val cpath = Some (attrs(cname \<mapsto> val))"
  by (simp add: backing_set_def)

lemma GetXAttr_stored:
  assumes "user_prefix name" and "B (cipher_path C path) = Some attrs"
    and "attrs (encrypt_xattr_name C name) = Some stored"
  shows "GetXAttr C B path name = decrypt_xattr_value C stored"
  using assms by (simp add: GetXAttr_def)

text \<open>
  Claim C4. For every stored xattr value that is the base64url encoding of a well-formed
  binary record (one that parses raw, to \<open>plain\<close>): stored raw, the record reads as
  \<open>plain\<close>; stored as base64url text, the decoder attempts raw parsing of the text first
  and, when that does not yield a well-formed record, falls back to base64url-decoding
  the bytes and retrying, which gives what raw storage gives. (Were the text itself to
  parse as a raw record, that parse would be returned.)
\<close>

theorem base64_xattr_read:
  assumes "raw_parse C record = Some plain"
    and "user_prefix name"
    and "B (cipher_path C path) = Some attrs"
  shows "GetXAttr C (backing_set B (cipher_path C path) (encrypt_xattr_name C name) record)
           path name = Inr plain \<and>
         GetXAttr C (backing_set B (cipher_path C path) (encrypt_xattr_name C name)
                       (b64_encode record)) path name =
           (case raw_parse C (b64_encode record) of
              None \<Rightarrow>
                GetXAttr C (backing_set B (cipher_path C path) (encrypt_xattr_name C name) record)
                  path name
            | Some other \<Rightarrow> Inr other) \<and>
         (raw_parse C (b64_encode record) = None \<longrightarrow>
            GetXAttr C (backing_set B (cipher_path C path) (encrypt_xattr_name C name)
                          (b64_encode record)) path name =
            GetXAttr C (backing_set B (cipher_path C path) (encrypt_xattr_name C name) record)
              path name)"
  using assms
  by (simp add: GetXAttr_def backing_set_def decrypt_xattr_value_def b64_decode_encode
      split: option.splits)

lemma example_raw_parse_record:
  "raw_parse example_core (example_encrypt_block ''test.42'' [] example_nonce) = Some ''test.42''"
proof -
  have "length example_nonce = IV_LEN"
    by (simp add: example_nonce_def IV_LEN_def)
  from raw_parse_block [OF example_core_correct this, of "''test.42''"]
  show ?thesis by (simp add: example_core_def)
qed

lemma example_raw_parse_text:
  "raw_parse example_core (b64_encode (example_encrypt_block ''test.42'' [] example_nonce)) = None"
  by (simp add: core_eval b64_eval)

text \<open>
  In the instance: the record of the value \<open>test.42\<close>, stored raw and stored as
  base64url text, which does not parse raw.
\<close>

theorem base64_xattr_read_witness:
  "raw_parse example_core (example_encrypt_block ''test.42'' [] example_nonce) = Some ''test.42'' \<and>
   raw_parse example_core (b64_encode (example_encrypt_block ''test.42'' [] example_nonce)) = None \<and>
   user_prefix ''user.test2'' \<and>
   example_backing (cipher_path example_core ''f'') = Some Map.empty \<and>
   GetXAttr example_core
     (backing_set example_backing (cipher_path example_core ''f'')
        (encrypt_xattr_name example_core ''user.test2'')
        (example_encrypt_block ''test.42'' [] example_nonce)) ''f'' ''user.test2'' =
     Inr ''test.42'' \<and>
   GetXAttr example_core
     (backing_set example_backing (cipher_path example_core ''f'')
        (encrypt_xattr_name example_core ''user.test2'')
        (b64_encode (example_encrypt_block ''test.42'' [] example_nonce))) ''f'' ''user.test2'' =
     Inr ''test.42''"
proof -
  have u: "user_prefix ''user.test2''"
    by (simp add: user_prefix_def)
  note t = base64_xattr_read [where C = example_core and B = example_backing and path = "''f''"
      and attrs = Map.empty and name = "''user.test2''",
      OF example_raw_parse_record u example_backing_f]
  show ?thesis
    using t example_raw_parse_record example_raw_parse_text u example_backing_f
    by simp
qed

section \<open>Extended attributes: broken values\<close>

lemma b64_decode_111: "map_option length (b64_decode ''111'') = Some 2"
  by (simp add: b64_eval)

lemma b64_decode_22: "map_option length (b64_decode ''raw-test-long-block123'') = Some 16"
  by (simp add: b64_eval)

lemma b64_decode_dollar: "b64_decode ''$$$$$$$$$$$$$$$$$$$$$$$$$$$$$$$$$$'' = None"
  by (simp add: b64_eval)

text \<open>
  Claim C5. For every stored xattr value for which both the raw binary parse and the
  base64url-fallback parse fail to produce an authentic record, \<open>GetXAttr\<close> on the
  plaintext name fails with \<open>EIO\<close> and returns no plaintext. In particular: \<open>111\<close>
  and \<open>raw-test-long-block123\<close> are too short for a record both as they are and
  decoded, under any core; 34 times \<open>$\<close> is not base64url and is rejected as soon as
  the core does not authenticate it; \<open>raw-test-long-block123-xyz\<close> followed by 38 times
  \<open>1\<close> is rejected as soon as the core authenticates neither it nor its decoding.
\<close>

theorem broken_xattr_rejected:
  assumes "user_prefix name"
    and "B (cipher_path C path) = Some attrs"
    and "attrs (encrypt_xattr_name C name) = Some stored"
  shows "(raw_parse C stored = None \<and>
          (\<forall>decoded. b64_decode stored = Some decoded \<longrightarrow> raw_parse C decoded = None) \<longrightarrow>
            GetXAttr C B path name = Inl EIO) \<and>
         (stored = ''111'' \<or> stored = ''raw-test-long-block123'' \<longrightarrow>
            GetXAttr C B path name = Inl EIO) \<and>
         (stored = ''$$$$$$$$$$$$$$$$$$$$$$$$$$$$$$$$$$'' \<and> decrypt_block C stored [] = None \<longrightarrow>
            GetXAttr C B path name = Inl EIO) \<and>
         (stored = ''raw-test-long-block123-xyz11111111111111111111111111111111111111'' \<and>
          decrypt_block C stored [] = None \<and>
          (\<forall>decoded. b64_decode stored = Some decoded \<longrightarrow> decrypt_block C decoded [] = None) \<longrightarrow>
            GetXAttr C B path name = Inl EIO)"
proof -
  note g = GetXAttr_stored [where C = C and B = B and attrs = attrs, OF assms]
  have general: "decrypt_xattr_value C s = Inl EIO"
    if "raw_parse C s = None"
      and "\<forall>decoded. b64_decode s = Some decoded \<longrightarrow> raw_parse C decoded = None" for s
    using that by (simp add: decrypt_xattr_value_def split: option.splits)
  have short: "raw_parse C s = None" if "length s < 32" for s
    using that by (simp add: raw_parse_def IV_LEN_def TAG_LEN_def)
  have fail: "raw_parse C s = None" if "decrypt_block C s [] = None" for s
    using that by (simp add: raw_parse_def)
  have 1: "decrypt_xattr_value C ''111'' = Inl EIO"
  proof (rule general)
    show "raw_parse C ''111'' = None"
      by (simp add: short)
    show "\<forall>decoded. b64_decode ''111'' = Some decoded \<longrightarrow> raw_parse C decoded = None"
      using b64_decode_111 by (auto simp: short)
  qed
  have 2: "decrypt_xattr_value C ''raw-test-long-block123'' = Inl EIO"
  proof (rule general)
    show "raw_parse C ''raw-test-long-block123'' = None"
      by (simp add: short)
    show "\<forall>decoded. b64_decode ''raw-test-long-block123'' = Some decoded \<longrightarrow>
            raw_parse C decoded = None"
      using b64_decode_22 by (auto simp: short)
  qed
  have 3: "decrypt_xattr_value C ''$$$$$$$$$$$$$$$$$$$$$$$$$$$$$$$$$$'' = Inl EIO"
    if "decrypt_block C ''$$$$$$$$$$$$$$$$$$$$$$$$$$$$$$$$$$'' [] = None"
    by (rule general) (simp_all add: fail [OF that] b64_decode_dollar)
  have 4: "decrypt_xattr_value C s = Inl EIO"
    if "decrypt_block C s [] = None"
      and "\<forall>decoded. b64_decode s = Some decoded \<longrightarrow> decrypt_block C decoded [] = None" for s
    using that by (intro general) (auto simp: fail)
  show ?thesis
    unfolding g using general 1 2 3 4 by blast
qed

text \<open>In the instance, the four stored values of the test: each read fails with \<open>EIO\<close>.\<close>

theorem broken_xattr_rejected_witness:
  "user_prefix ''user.test2'' \<and>
   example_backing (cipher_path example_core ''f'') = Some Map.empty \<and>
   GetXAttr example_core
     (backing_set example_backing (cipher_path example_core ''f'')
        (encrypt_xattr_name example_core ''user.test2'') ''111'') ''f'' ''user.test2'' = Inl EIO \<and>
   GetXAttr example_core
     (backing_set example_backing (cipher_path example_core ''f'')
        (encrypt_xattr_name example_core ''user.test2'') ''raw-test-long-block123'')
     ''f'' ''user.test2'' = Inl EIO \<and>
   decrypt_block example_core ''$$$$$$$$$$$$$$$$$$$$$$$$$$$$$$$$$$'' [] = None \<and>
   GetXAttr example_core
     (backing_set example_backing (cipher_path example_core ''f'')
        (encrypt_xattr_name example_core ''user.test2'') ''$$$$$$$$$$$$$$$$$$$$$$$$$$$$$$$$$$'')
     ''f'' ''user.test2'' = Inl EIO \<and>
   decrypt_block example_core
     ''raw-test-long-block123-xyz11111111111111111111111111111111111111'' [] = None \<and>
   GetXAttr example_core
     (backing_set example_backing (cipher_path example_core ''f'')
        (encrypt_xattr_name example_core ''user.test2'')
        ''raw-test-long-block123-xyz11111111111111111111111111111111111111'')
     ''f'' ''user.test2'' = Inl EIO"
proof -
  let ?cp = "cipher_path example_core ''f''"
  let ?cn = "encrypt_xattr_name example_core ''user.test2''"
  have u: "user_prefix ''user.test2''"
    by (simp add: user_prefix_def)
  have b: "backing_set example_backing ?cp ?cn s ?cp = Some (Map.empty(?cn \<mapsto> s))" for s
    using example_backing_f by (simp add: backing_set_def)
  have a: "(Map.empty(?cn \<mapsto> s)) ?cn = Some s" for s :: string
    by simp
  have t: "(stored = ''111'' \<or> stored = ''raw-test-long-block123'' \<longrightarrow>
            GetXAttr example_core (backing_set example_backing ?cp ?cn stored)
              ''f'' ''user.test2'' = Inl EIO) \<and>
           (stored = ''$$$$$$$$$$$$$$$$$$$$$$$$$$$$$$$$$$'' \<and>
            decrypt_block example_core stored [] = None \<longrightarrow>
            GetXAttr example_core (backing_set example_backing ?cp ?cn stored)
              ''f'' ''user.test2'' = Inl EIO) \<and>
           (stored = ''raw-test-long-block123-xyz11111111111111111111111111111111111111'' \<and>
            decrypt_block example_core stored [] = None \<and>
            (\<forall>decoded. b64_decode stored = Some decoded \<longrightarrow>
               decrypt_block example_core decoded [] = None) \<longrightarrow>
            GetXAttr example_core (backing_set example_backing ?cp ?cn stored)
              ''f'' ''user.test2'' = Inl EIO)" for stored
    using broken_xattr_rejected [where C = example_core and path = "''f''"
        and name = "''user.test2''" and B = "backing_set example_backing ?cp ?cn stored"
        and attrs = "Map.empty(?cn \<mapsto> stored)" and stored = stored, OF u b a]
    by blast
  have d3: "decrypt_block example_core ''$$$$$$$$$$$$$$$$$$$$$$$$$$$$$$$$$$'' [] = None"
    by (simp add: core_eval)
  have d4: "decrypt_block example_core
              ''raw-test-long-block123-xyz11111111111111111111111111111111111111'' [] = None"
    by (simp add: core_eval)
  have d4': "\<forall>decoded.
               b64_decode ''raw-test-long-block123-xyz11111111111111111111111111111111111111'' =
                 Some decoded \<longrightarrow>
               decrypt_block example_core decoded [] = None"
    by (simp add: core_eval b64_eval char_of_eq_iff)
  have 1: "GetXAttr example_core (backing_set example_backing ?cp ?cn ''111'')
             ''f'' ''user.test2'' = Inl EIO"
    using t [of "''111''"] by simp
  have 2: "GetXAttr example_core (backing_set example_backing ?cp ?cn ''raw-test-long-block123'')
             ''f'' ''user.test2'' = Inl EIO"
    using t [of "''raw-test-long-block123''"] by simp
  have 3: "GetXAttr example_core
             (backing_set example_backing ?cp ?cn ''$$$$$$$$$$$$$$$$$$$$$$$$$$$$$$$$$$'')
             ''f'' ''user.test2'' = Inl EIO"
    using t [of "''$$$$$$$$$$$$$$$$$$$$$$$$$$$$$$$$$$''"] d3 by simp
  have 4: "GetXAttr example_core
             (backing_set example_backing ?cp ?cn
                ''raw-test-long-block123-xyz11111111111111111111111111111111111111'')
             ''f'' ''user.test2'' = Inl EIO"
    using t [of "''raw-test-long-block123-xyz11111111111111111111111111111111111111''"] d4 d4'
    by blast
  show ?thesis
    using u example_backing_f 1 2 d3 3 d4 4 by simp
qed

end
